theory Spec2Isabelle
  imports Main
begin

section \<open>Values, objects and the store\<close>

text \<open>
  The layer is JavaScript: arrays, closures and object literals are allocated
  objects, compared by reference with \<open>===\<close>. A value is a primitive or a
  reference; the store is the list of allocated objects, an address being a
  position in it, so that an allocation appends and never reuses an address.
  Numbers are the integers (row numbers and field indexes are all this file
  computes with), so \<open>===\<close> on values is equality.
\<close>

type_synonym addr = nat

datatype jsval = Undefined | Null | Bool bool | Num int | Str string | Ref addr

datatype error = TypeError

text \<open>The record pushed by the reducer of \<open>formatLayerData\<close>:
  \<open>{index: i, data: allData[index], id, centroid}\<close>.\<close>

record point =
  index :: nat
  data :: jsval
  id' :: jsval
  centroid :: jsval

text \<open>
  An object of the store: an array; the closure \<open>d => d[s2_id.fieldIdx]\<close> that
  \<open>S2IdAccessor\<close> returns, with the field index it reads; a record of the
  derived dataset.
\<close>

datatype obj = Arr "jsval list" | Fn int | Point point

fun truthy :: "jsval \<Rightarrow> bool" where
  "truthy Undefined = False"
| "truthy Null = False"
| "truthy (Bool b) = b"
| "truthy (Num n) = (n \<noteq> 0)"
| "truthy (Str s) = (s \<noteq> [])"
| "truthy (Ref a) = True"

definition lookup :: "obj list \<Rightarrow> addr \<Rightarrow> obj option" where
  "lookup h a = (if a < length h then Some (h ! a) else None)"

definition alloc :: "obj list \<Rightarrow> obj \<Rightarrow> addr \<times> obj list" where
  "alloc h ob = (length h, h @ [ob])"

definition nth_js :: "'a list \<Rightarrow> int \<Rightarrow> 'a option" where
  "nth_js xs k = (if 0 \<le> k \<and> k < int (length xs) then Some (xs ! nat k) else None)"

text \<open>
  \<open>v[k]\<close> for a number \<open>k\<close>: a TypeError on \<open>undefined\<close> and \<open>null\<close>, the element of
  an array or the character of a string when \<open>k\<close> is in range, \<open>undefined\<close>
  otherwise.
\<close>

definition get_elem :: "obj list \<Rightarrow> jsval \<Rightarrow> int \<Rightarrow> error + jsval" where
  "get_elem h v k =
     (case v of
        Undefined \<Rightarrow> Inl TypeError
      | Null \<Rightarrow> Inl TypeError
      | Bool b \<Rightarrow> Inr Undefined
      | Num n \<Rightarrow> Inr Undefined
      | Str s \<Rightarrow> Inr (case nth_js s k of Some c \<Rightarrow> Str [c] | None \<Rightarrow> Undefined)
      | Ref a \<Rightarrow>
          Inr (case lookup h a of
                 Some (Arr xs) \<Rightarrow> (case nth_js xs k of Some x \<Rightarrow> x | None \<Rightarrow> Undefined)
               | _ \<Rightarrow> Undefined))"

text \<open>
  \<open>v[key]\<close> for a key read from \<open>filteredIndex\<close>, an array of row numbers. A key
  that is no number names no element of an array, a closure or a derived record.
\<close>

definition get_prop :: "obj list \<Rightarrow> jsval \<Rightarrow> jsval \<Rightarrow> error + jsval" where
  "get_prop h v key =
     (case key of
        Num k \<Rightarrow> get_elem h v k
      | _ \<Rightarrow> (case v of Undefined \<Rightarrow> Inl TypeError | Null \<Rightarrow> Inl TypeError | _ \<Rightarrow> Inr Undefined))"

text \<open>
  \<open>f(d)\<close>: only the closures of \<open>S2IdAccessor\<close> are functions of the store; calling
  anything else is a TypeError.
\<close>

definition call :: "obj list \<Rightarrow> jsval \<Rightarrow> jsval \<Rightarrow> error + jsval" where
  "call h f d =
     (case f of
        Ref a \<Rightarrow> (case lookup h a of Some (Fn k) \<Rightarrow> get_elem h d k | _ \<Rightarrow> Inl TypeError)
      | _ \<Rightarrow> Inl TypeError)"

text \<open>\<open>arr.push(v)\<close>: the array is updated in place.\<close>

definition push :: "obj list \<Rightarrow> jsval \<Rightarrow> jsval \<Rightarrow> error + obj list" where
  "push h arr v =
     (case arr of
        Ref a \<Rightarrow> (case lookup h a of
                    Some (Arr xs) \<Rightarrow> Inr (h[a := Arr (xs @ [v])])
                  | _ \<Rightarrow> Inl TypeError)
      | _ \<Rightarrow> Inl TypeError)"

section \<open>Configuration of the layer\<close>

text \<open>
  A column binding maps the role \<open>s2_id\<close> to a field descriptor
  \<open>{value, fieldIdx}\<close>; an unbound column is \<open>{value: null, fieldIdx: -1}\<close>.
\<close>

record field_desc =
  field_value :: jsval
  fieldIdx :: int

record column_binding =
  s2_id :: field_desc

record color_range =
  colors :: "jsval list"

record vis_config =
  sizeRange :: jsval
  colorRange :: color_range
  coverageRange :: jsval

record layer_config =
  colorScale :: jsval
  colorDomain :: jsval
  colorField :: jsval
  color :: jsval
  columns :: column_binding
  sizeField :: jsval
  sizeScale :: jsval
  sizeDomain :: jsval
  coverageField :: jsval
  coverageScale :: jsval
  coverageDomain :: jsval
  visConfig :: vis_config

record options =
  sameData :: jsval

section \<open>Scales, resolvers and the geometry cache\<close>

datatype scale_range = Rgb "jsval list" | Plain jsval

text \<open>
  Modelled from the spec: \<open>getVisChannelScale\<close> is a method of the base layer,
  which is not in this file. The spec's \<open>buildScale(scaleKind, domain, range,
  fallbackValue?)\<close> returns an encoding function and never fails; the function it
  returns is named here by the arguments it was built from.
\<close>

datatype scale = Scale jsval jsval scale_range "jsval option"

definition getVisChannelScale :: "jsval \<Rightarrow> jsval \<Rightarrow> scale_range \<Rightarrow> jsval option \<Rightarrow> scale" where
  "getVisChannelScale kind domain_arg range_arg fixed = Scale kind domain_arg range_arg fixed"

text \<open>
  What \<open>formatLayerData\<close> returns under \<open>getElevation\<close>, \<open>getColor\<close> and
  \<open>getCoverage\<close>: the plain value of the fallback, or the closure
  \<open>d => this.getEncodedChannelValue(scale, d.data, field, nullValue)\<close>, kept as
  what it closes over.
\<close>

datatype resolver = Constant jsval | Encoded scale jsval "jsval option"

record feature_cache =
  centroids :: "int \<rightharpoonup> jsval"
  hexagonVertices :: jsval
  hexagonCenter :: jsval

record layer_data =
  data :: jsval
  getElevation :: resolver
  getColor :: resolver
  getS2Id :: jsval
  getCoverage :: resolver
  hexagonVertices :: jsval
  hexagonCenter :: jsval

text \<open>
  The collaborators that are not in this file: \<open>hexToRgb\<close> of the colour
  utilities, the geometry component behind \<open>updateLayerMeta\<close> and
  \<open>getEncodedChannelValue\<close> of the base layer.
\<close>

record env =
  hexToRgb :: "jsval \<Rightarrow> jsval"
  geometry :: "obj list \<Rightarrow> jsval \<Rightarrow> jsval \<Rightarrow> feature_cache"
  getEncodedChannelValue :: "obj list \<Rightarrow> scale \<Rightarrow> jsval \<Rightarrow> jsval \<Rightarrow> jsval option \<Rightarrow> jsval"

section \<open>The layer\<close>

text \<open>
  The store together with the fields of \<open>this\<close> that \<open>formatLayerData\<close> uses:
  \<open>config\<close>, the cache of the memoized \<open>getS2Id\<close>, \<open>dataToFeature\<close>, and the calls
  \<open>updateLayerMeta\<close> has received.
\<close>

record state =
  heap :: "obj list"
  config :: layer_config
  cache :: "int \<rightharpoonup> jsval"
  dataToFeature :: feature_cache
  metaCalls :: "(jsval \<times> jsval) list"

text \<open>Lines 48 and 49.\<close>

definition S2IdAccessor :: "obj list \<Rightarrow> column_binding \<Rightarrow> jsval \<times> obj list" where
  "S2IdAccessor h c = (let (a, h') = alloc h (Fn (fieldIdx (s2_id c))) in (Ref a, h'))"

definition S2IdResolver :: "column_binding \<Rightarrow> int" where
  "S2IdResolver c = fieldIdx (s2_id c)"

text \<open>
  \<open>this.getS2Id = memoize(S2IdAccessor, S2IdResolver)\<close> (line 56), with lodash's
  \<open>memoize\<close>: the key is the resolver's result; a key the cache has returns the
  cached value, another one calls the function and stores its result.
\<close>

definition this_getS2Id :: "state \<Rightarrow> column_binding \<Rightarrow> jsval \<times> state" where
  "this_getS2Id st c =
     (let key = S2IdResolver c in
      case cache st key of
        Some f \<Rightarrow> (f, st)
      | None \<Rightarrow>
          (let (f, h') = S2IdAccessor (heap st) c
           in (f, st\<lparr>heap := h', cache := (cache st)(key \<mapsto> f)\<rparr>)))"

text \<open>
  Modelled from the spec: \<open>updateLayerMeta\<close> and the cache \<open>dataToFeature\<close> belong
  to the geometry component, which is not in this file. The spec has it
  recompute centroids and vertices for the full raw dataset when it is
  signalled, and own the cache \<open>{centroids, hexagonVertices, hexagonCenter}\<close>.
\<close>

definition updateLayerMeta :: "env \<Rightarrow> state \<Rightarrow> jsval \<Rightarrow> jsval \<Rightarrow> state" where
  "updateLayerMeta env st allData f =
     st\<lparr>dataToFeature := geometry env (heap st) allData f,
        metaCalls := metaCalls st @ [(allData, f)]\<rparr>"

text \<open>\<open>this.dataToFeature.centroids[index]\<close>.\<close>

definition get_centroid :: "feature_cache \<Rightarrow> jsval \<Rightarrow> jsval" where
  "get_centroid fc key =
     (case key of
        Num k \<Rightarrow> (case centroids fc k of Some c \<Rightarrow> c | None \<Rightarrow> Undefined)
      | _ \<Rightarrow> Undefined)"

text \<open>
  \<open>Array.prototype.reduce\<close> with an initial value: the callback gets the
  accumulator, the element and its position, in order; an exception of the
  callback ends the loop.
\<close>

fun reduce ::
  "(state \<Rightarrow> jsval \<Rightarrow> jsval \<Rightarrow> nat \<Rightarrow> (error + jsval) \<times> state) \<Rightarrow>
   state \<Rightarrow> jsval \<Rightarrow> jsval list \<Rightarrow> nat \<Rightarrow> (error + jsval) \<times> state" where
  "reduce cb st accu [] i = (Inr accu, st)"
| "reduce cb st accu (x # xs) i =
     (case cb st accu x i of
        (Inl e, st') \<Rightarrow> (Inl e, st')
      | (Inr accu', st') \<Rightarrow> reduce cb st' accu' xs (Suc i))"

text \<open>The callback of lines 167 to 182.\<close>

definition reducer ::
  "jsval \<Rightarrow> jsval \<Rightarrow> state \<Rightarrow> jsval \<Rightarrow> jsval \<Rightarrow> nat \<Rightarrow> (error + jsval) \<times> state" where
  "reducer allData f st accu idx i =
     (case get_prop (heap st) allData idx of
        Inl e \<Rightarrow> (Inl e, st)
      | Inr row \<Rightarrow>
          (case call (heap st) f row of
             Inl e \<Rightarrow> (Inl e, st)
           | Inr ident \<Rightarrow>
               (let c = get_centroid (dataToFeature st) idx in
                if truthy c then
                  (let (a, h1) =
                     alloc (heap st) (Point \<lparr>index = i, data = row, id' = ident, centroid = c\<rparr>)
                   in case push h1 accu (Ref a) of
                        Inl e \<Rightarrow> (Inl e, st\<lparr>heap := h1\<rparr>)
                      | Inr h2 \<Rightarrow> (Inr accu, st\<lparr>heap := h2\<rparr>))
                else (Inr accu, st))))"

text \<open>
  The else branch of lines 166 to 183: \<open>filteredIndex.reduce(..., [])\<close>. Anything
  but an array has no \<open>reduce\<close>.
\<close>

definition rebuild :: "state \<Rightarrow> jsval \<Rightarrow> jsval \<Rightarrow> jsval \<Rightarrow> (error + jsval) \<times> state" where
  "rebuild st allData filteredIndex f =
     (case filteredIndex of
        Ref fa \<Rightarrow>
          (case lookup (heap st) fa of
             Some (Arr xs) \<Rightarrow>
               (let (a, h1) = alloc (heap st) (Arr [])
                in reduce (reducer allData f) (st\<lparr>heap := h1\<rparr>) (Ref a) xs 0)
           | _ \<Rightarrow> (Inl TypeError, st))
      | _ \<Rightarrow> (Inl TypeError, st))"

text \<open>The tests of line 154 and of lines 159 to 164.\<close>

definition accessor_changed :: "layer_data option \<Rightarrow> jsval \<Rightarrow> bool" where
  "accessor_changed oldLayerData f =
     (case oldLayerData of None \<Rightarrow> True | Some old \<Rightarrow> getS2Id old \<noteq> f)"

definition opt_sameData :: "options option \<Rightarrow> jsval" where
  "opt_sameData opt = (case opt of None \<Rightarrow> Undefined | Some p \<Rightarrow> sameData p)"

definition can_reuse :: "layer_data option \<Rightarrow> options option \<Rightarrow> jsval \<Rightarrow> bool" where
  "can_reuse oldLayerData opt f =
     (case oldLayerData of
        None \<Rightarrow> False
      | Some old \<Rightarrow> truthy (data old) \<and> truthy (opt_sameData opt) \<and> getS2Id old = f)"

text \<open>
  \<open>formatLayerData(_, allData, filteredIndex, oldLayerData, opt = {})\<close>, lines 118
  to 207. \<open>oldLayerData\<close> is \<open>None\<close> for \<open>undefined\<close>, \<open>opt\<close> is \<open>None\<close> when the
  argument is left out. The result is the frame or the exception, and the state
  the call leaves behind in both cases.
\<close>

definition formatLayerData ::
  "env \<Rightarrow> state \<Rightarrow> jsval \<Rightarrow> jsval \<Rightarrow> layer_data option \<Rightarrow> options option \<Rightarrow>
   (error + layer_data) \<times> state" where
  "formatLayerData env st allData filteredIndex oldLayerData opt =
     (let cfg = config st;
          cScale =
            (if truthy (colorField cfg)
             then Some (getVisChannelScale (colorScale cfg) (colorDomain cfg)
                          (Rgb (map (hexToRgb env) (colors (colorRange (visConfig cfg))))) None)
             else None);
          sScale =
            (if truthy (sizeField cfg)
             then Some (getVisChannelScale (sizeScale cfg) (sizeDomain cfg)
                          (Plain (sizeRange (visConfig cfg))) (Some (Num 0)))
             else None);
          coScale =
            (if truthy (coverageField cfg)
             then Some (getVisChannelScale (coverageScale cfg) (coverageDomain cfg)
                          (Plain (coverageRange (visConfig cfg))) (Some (Num 0)))
             else None);
          (f, st1) = this_getS2Id st (columns cfg);
          st2 = (if accessor_changed oldLayerData f then updateLayerMeta env st1 allData f else st1);
          (r, st3) =
            (if can_reuse oldLayerData opt f
             then (Inr (data (the oldLayerData)), st2)
             else rebuild st2 allData filteredIndex f)
      in case r of
           Inl e \<Rightarrow> (Inl e, st3)
         | Inr d \<Rightarrow>
             (Inr \<lparr>data = d,
                   getElevation =
                     (case sScale of
                        Some sc \<Rightarrow> Encoded sc (sizeField cfg) (Some (Num 0))
                      | None \<Rightarrow> Constant (Num 0)),
                   getColor =
                     (case cScale of
                        Some sc \<Rightarrow> Encoded sc (colorField cfg) None
                      | None \<Rightarrow> Constant (color cfg)),
                   getS2Id = f,
                   getCoverage =
                     (case coScale of
                        Some sc \<Rightarrow> Encoded sc (coverageField cfg) (Some (Num 0))
                      | None \<Rightarrow> Constant (Num 1)),
                   hexagonVertices = feature_cache.hexagonVertices (dataToFeature st3),
                   hexagonCenter = feature_cache.hexagonCenter (dataToFeature st3)\<rparr>,
              st3))"

section \<open>What the claims speak of\<close>

text \<open>A value of a store with \<open>n\<close> objects: a primitive, or a reference below \<open>n\<close>.\<close>

definition below :: "nat \<Rightarrow> jsval \<Rightarrow> bool" where
  "below n v = (case v of Ref a \<Rightarrow> a < n | _ \<Rightarrow> True)"

text \<open>The array a value refers to, and the derived dataset read back from the store.\<close>

definition array_of :: "obj list \<Rightarrow> jsval \<Rightarrow> jsval list option" where
  "array_of h v =
     (case v of
        Ref a \<Rightarrow> (case lookup h a of Some (Arr xs) \<Rightarrow> Some xs | _ \<Rightarrow> None)
      | _ \<Rightarrow> None)"

definition point_of :: "obj list \<Rightarrow> jsval \<Rightarrow> point option" where
  "point_of h v =
     (case v of
        Ref a \<Rightarrow> (case lookup h a of Some (Point p) \<Rightarrow> Some p | _ \<Rightarrow> None)
      | _ \<Rightarrow> None)"

definition dataset_of :: "obj list \<Rightarrow> jsval \<Rightarrow> point list option" where
  "dataset_of h v =
     (case array_of h v of Some xs \<Rightarrow> those (map (point_of h) xs) | None \<Rightarrow> None)"

text \<open>
  The accessor the layer resolves for its current columns, and the state the
  resolution leaves (line 152).
\<close>

definition current_accessor :: "state \<Rightarrow> jsval" where
  "current_accessor st = fst (this_getS2Id st (columns (config st)))"

definition resolved :: "state \<Rightarrow> state" where
  "resolved st = snd (this_getS2Id st (columns (config st)))"

text \<open>
  The cache of the memoized getter holds, under every key, a closure of the
  store that reads that field.
\<close>

definition cache_ok :: "state \<Rightarrow> bool" where
  "cache_ok st =
     (\<forall>k v. cache st k = Some v \<longrightarrow> (\<exists>a. v = Ref a \<and> lookup (heap st) a = Some (Fn k)))"

text \<open>
  Inputs as kepler passes them: \<open>allData\<close> is an array of rows that are
  present, \<open>filteredIndex\<close> an array of positions in it, and every row is a
  value of the store.
\<close>

definition index_ok :: "jsval list \<Rightarrow> jsval \<Rightarrow> bool" where
  "index_ok rows idx =
     (case idx of
        Num k \<Rightarrow> (case nth_js rows k of
                    Some r \<Rightarrow> r \<noteq> Undefined \<and> r \<noteq> Null
                  | None \<Rightarrow> False)
      | _ \<Rightarrow> False)"

definition wf_input :: "obj list \<Rightarrow> jsval \<Rightarrow> jsval \<Rightarrow> bool" where
  "wf_input h allData filteredIndex =
     (case array_of h allData of
        None \<Rightarrow> False
      | Some rows \<Rightarrow>
          (case array_of h filteredIndex of
             None \<Rightarrow> False
           | Some F \<Rightarrow> list_all (below (length h)) rows \<and> list_all (index_ok rows) F))"

text \<open>
  The rebuilt dataset in the words of the specification: for every position
  \<open>i\<close> of the filtered indices, in order, the record \<open>{index: i, data:
  allData[F[i]], id: accessor(allData[F[i]]), centroid}\<close>, kept if and only if
  the centroid of the raw index \<open>F[i]\<close> exists.
\<close>

definition row_at :: "jsval list \<Rightarrow> jsval \<Rightarrow> jsval" where
  "row_at rows idx =
     (case idx of
        Num k \<Rightarrow> (case nth_js rows k of Some r \<Rightarrow> r | None \<Rightarrow> Undefined)
      | _ \<Rightarrow> Undefined)"

definition field_at :: "obj list \<Rightarrow> int \<Rightarrow> jsval \<Rightarrow> jsval" where
  "field_at h k row = (case get_elem h row k of Inr v \<Rightarrow> v | Inl e \<Rightarrow> Undefined)"

definition derived_point ::
  "obj list \<Rightarrow> feature_cache \<Rightarrow> jsval list \<Rightarrow> int \<Rightarrow> jsval list \<Rightarrow> nat \<Rightarrow> point" where
  "derived_point h fc rows k F i =
     \<lparr>index = i, data = row_at rows (F ! i), id' = field_at h k (row_at rows (F ! i)),
      centroid = get_centroid fc (F ! i)\<rparr>"

text \<open>The positions from \<open>i\<close> on whose raw index has a centroid, in order.\<close>

definition kept :: "feature_cache \<Rightarrow> jsval list \<Rightarrow> nat \<Rightarrow> nat list" where
  "kept fc F i = filter (\<lambda>j. truthy (get_centroid fc (F ! j))) [i..<length F]"

definition derived_spec ::
  "obj list \<Rightarrow> feature_cache \<Rightarrow> jsval list \<Rightarrow> int \<Rightarrow> jsval list \<Rightarrow> point list" where
  "derived_spec h fc rows k F = map (derived_point h fc rows k F) (kept fc F 0)"

text \<open>The state at line 157, after the accessor is resolved and the geometry refreshed.\<close>

definition prepared :: "env \<Rightarrow> state \<Rightarrow> jsval \<Rightarrow> layer_data option \<Rightarrow> state" where
  "prepared env st allData oldLayerData =
     (if accessor_changed oldLayerData (current_accessor st)
      then updateLayerMeta env (resolved st) allData (current_accessor st)
      else resolved st)"

text \<open>The object of lines 185 to 205, for the dataset \<open>d\<close> and the accessor \<open>f\<close>.\<close>

definition layer_frame :: "env \<Rightarrow> layer_config \<Rightarrow> jsval \<Rightarrow> jsval \<Rightarrow> feature_cache \<Rightarrow> layer_data" where
  "layer_frame env cfg f d fc =
     \<lparr>data = d,
      getElevation =
        (if truthy (sizeField cfg)
         then Encoded (getVisChannelScale (sizeScale cfg) (sizeDomain cfg)
                         (Plain (sizeRange (visConfig cfg))) (Some (Num 0)))
                (sizeField cfg) (Some (Num 0))
         else Constant (Num 0)),
      getColor =
        (if truthy (colorField cfg)
         then Encoded (getVisChannelScale (colorScale cfg) (colorDomain cfg)
                         (Rgb (map (hexToRgb env) (colors (colorRange (visConfig cfg))))) None)
                (colorField cfg) None
         else Constant (color cfg)),
      getS2Id = f,
      getCoverage =
        (if truthy (coverageField cfg)
         then Encoded (getVisChannelScale (coverageScale cfg) (coverageDomain cfg)
                         (Plain (coverageRange (visConfig cfg))) (Some (Num 0)))
                (coverageField cfg) (Some (Num 0))
         else Constant (Num 1)),
      hexagonVertices = feature_cache.hexagonVertices fc,
      hexagonCenter = feature_cache.hexagonCenter fc\<rparr>"

text \<open>The state after the rebuild, in closed form.\<close>

definition rebuilt :: "state \<Rightarrow> jsval list \<Rightarrow> int \<Rightarrow> jsval list \<Rightarrow> state" where
  "rebuilt st rows k F =
     st\<lparr>heap :=
          heap st @
          Arr (map Ref [Suc (length (heap st))..<
                 Suc (length (heap st)) + length (kept (dataToFeature st) F 0)]) #
          map (\<lambda>j. Point (derived_point (heap st) (dataToFeature st) rows k F j))
            (kept (dataToFeature st) F 0)\<rparr>"

text \<open>A step that only allocates: the fields of the layer stay, the store grows.\<close>

definition heap_only :: "state \<Rightarrow> state \<Rightarrow> bool" where
  "heap_only st st' =
     (config st' = config st \<and> cache st' = cache st \<and> dataToFeature st' = dataToFeature st \<and>
      metaCalls st' = metaCalls st \<and> length (heap st) \<le> length (heap st'))"

text \<open>
  \<open>r(d)\<close> for what the frame holds under \<open>getElevation\<close>, \<open>getColor\<close> or
  \<open>getCoverage\<close>: a plain value is called as any value is, the closure reads
  \<open>d.data\<close> and encodes it.
\<close>

definition call_resolver :: "env \<Rightarrow> obj list \<Rightarrow> resolver \<Rightarrow> jsval \<Rightarrow> error + jsval" where
  "call_resolver env h r d =
     (case r of
        Constant v \<Rightarrow> call h v d
      | Encoded sc field nullValue \<Rightarrow>
          (case d of
             Undefined \<Rightarrow> Inl TypeError
           | Null \<Rightarrow> Inl TypeError
           | _ \<Rightarrow>
               Inr (getEncodedChannelValue env h sc
                      (case point_of h d of Some p \<Rightarrow> point.data p | None \<Rightarrow> Undefined)
                      field nullValue)))"

text \<open>
  The constants \<open>cScale\<close>, \<open>sScale\<close> and \<open>coScale\<close> of lines 135 to 150, as
  \<open>formatLayerData\<close> computes them: the scale built for a channel, none when its
  field is falsy.
\<close>

definition cScale_of :: "env \<Rightarrow> layer_config \<Rightarrow> scale option" where
  "cScale_of env cfg =
     (if truthy (colorField cfg)
      then Some (getVisChannelScale (colorScale cfg) (colorDomain cfg)
                   (Rgb (map (hexToRgb env) (colors (colorRange (visConfig cfg))))) None)
      else None)"

definition sScale_of :: "layer_config \<Rightarrow> scale option" where
  "sScale_of cfg =
     (if truthy (sizeField cfg)
      then Some (getVisChannelScale (sizeScale cfg) (sizeDomain cfg)
                   (Plain (sizeRange (visConfig cfg))) (Some (Num 0)))
      else None)"

definition coScale_of :: "layer_config \<Rightarrow> scale option" where
  "coScale_of cfg =
     (if truthy (coverageField cfg)
      then Some (getVisChannelScale (coverageScale cfg) (coverageDomain cfg)
                   (Plain (coverageRange (visConfig cfg))) (Some (Num 0)))
      else None)"


text \<open>A derived dataset that is an array with at least one record.\<close>

definition nonempty_dataset :: "obj list \<Rightarrow> jsval \<Rightarrow> bool" where
  "nonempty_dataset h v = (case array_of h v of Some xs \<Rightarrow> xs \<noteq> [] | None \<Rightarrow> False)"

text \<open>
  What a call returns when it rebuilds from the state \<open>st2\<close>: the frame around
  the dataset of \<open>rebuild\<close>, or its exception.
\<close>

definition rebuilding ::
  "env \<Rightarrow> state \<Rightarrow> state \<Rightarrow> jsval \<Rightarrow> jsval \<Rightarrow> (error + layer_data) \<times> state" where
  "rebuilding env st st2 allData filteredIndex =
     (case rebuild st2 allData filteredIndex (current_accessor st) of
        (Inl e, st3) \<Rightarrow> (Inl e, st3)
      | (Inr d, st3) \<Rightarrow>
          (Inr (layer_frame env (config st) (current_accessor st) d (dataToFeature st3)), st3))"

section \<open>A layer with two rows\<close>

text \<open>
  The scenario of the specification: rows \<open>['A', 1]\<close> and \<open>['B', 2]\<close>, the column
  \<open>s2_id\<close> bound to field 1, a centroid for row 0 only, no channel field set.
  The store holds the rows (0, 1), \<open>allData\<close> (2), the filtered indices \<open>[0, 1]\<close>
  (3), the centroid (4), the static colour (5) and an empty filter (6).
\<close>

definition ex_heap :: "obj list" where
  "ex_heap =
     [Arr [Str ''A'', Num 1], Arr [Str ''B'', Num 2], Arr [Ref 0, Ref 1], Arr [Num 0, Num 1],
      Arr [Num 10, Num 20], Arr [Num 255, Num 0, Num 0], Arr []]"

definition ex_cache :: feature_cache where
  "ex_cache = \<lparr>centroids = [0 \<mapsto> Ref 4], hexagonVertices = Undefined, hexagonCenter = Undefined\<rparr>"

definition ex_env :: env where
  "ex_env =
     \<lparr>hexToRgb = (\<lambda>c. c), geometry = (\<lambda>h a f. ex_cache),
      getEncodedChannelValue = (\<lambda>h sc d field nullValue. Undefined)\<rparr>"

definition ex_columns :: column_binding where
  "ex_columns = \<lparr>s2_id = \<lparr>field_value = Str ''s2_id'', fieldIdx = 1\<rparr>\<rparr>"

definition ex_columns' :: column_binding where
  "ex_columns' = \<lparr>s2_id = \<lparr>field_value = Str ''s2_token'', fieldIdx = 1\<rparr>\<rparr>"

definition ex_config :: layer_config where
  "ex_config =
     \<lparr>colorScale = Str ''quantile'', colorDomain = Undefined, colorField = Null, color = Ref 5,
      columns = ex_columns,
      sizeField = Null, sizeScale = Str ''linear'', sizeDomain = Undefined,
      coverageField = Null, coverageScale = Str ''linear'', coverageDomain = Undefined,
      visConfig = \<lparr>sizeRange = Undefined, colorRange = \<lparr>colors = []\<rparr>, coverageRange = Undefined\<rparr>\<rparr>"

definition ex_state :: state where
  "ex_state =
     \<lparr>heap = ex_heap, config = ex_config, cache = Map.empty,
      dataToFeature =
        \<lparr>centroids = Map.empty, hexagonVertices = Undefined, hexagonCenter = Undefined\<rparr>,
      metaCalls = []\<rparr>"

text \<open>The frame a call leaves for the dataset \<open>d\<close>, and the state after the accessor
  (7) and a dataset (8 and on) are allocated.\<close>

definition ex_frame :: "jsval \<Rightarrow> layer_data" where
  "ex_frame d =
     \<lparr>data = d, getElevation = Constant (Num 0), getColor = Constant (Ref 5), getS2Id = Ref 7,
      getCoverage = Constant (Num 1), hexagonVertices = Undefined, hexagonCenter = Undefined\<rparr>"

definition ex_after :: "obj list \<Rightarrow> state" where
  "ex_after objs =
     \<lparr>heap = ex_heap @ Fn 1 # objs, config = ex_config, cache = [1 \<mapsto> Ref 7],
      dataToFeature = ex_cache, metaCalls = [(Ref 2, Ref 7)]\<rparr>"

text \<open>The one record of the scenario: row 0 at position 0.\<close>

definition ex_point :: point where
  "ex_point = \<lparr>index = 0, data = Ref 0, id' = Num 1, centroid = Ref 4\<rparr>"

text \<open>The layer after a first call, with the column rebound to field 0.\<close>

definition ex_rebound :: state where
  "ex_rebound =
     (ex_after [Arr [Ref 9], Point ex_point])
       \<lparr>config := ex_config\<lparr>columns := \<lparr>s2_id = \<lparr>field_value = Str ''id'', fieldIdx = 0\<rparr>\<rparr>\<rparr>\<rparr>"

text \<open>The layer with the column left unbound.\<close>

definition ex_unbound :: state where
  "ex_unbound =
     ex_state\<lparr>config := ex_config\<lparr>columns := \<lparr>s2_id = \<lparr>field_value = Null, fieldIdx = - 1\<rparr>\<rparr>\<rparr>\<rparr>"

text \<open>
  A geometry component whose centroids depend on the accessor: row 0 for the
  closure of field 1 (address 7), row 1 for any other.
\<close>

definition ex_cache' :: feature_cache where
  "ex_cache' = \<lparr>centroids = [1 \<mapsto> Ref 4], hexagonVertices = Undefined, hexagonCenter = Undefined\<rparr>"

definition ex_env' :: env where
  "ex_env' = ex_env\<lparr>geometry := (\<lambda>h a f. if f = Ref 7 then ex_cache else ex_cache')\<rparr>"

text \<open>The record of row 1 at position 1, read through field 0.\<close>

definition ex_point' :: point where
  "ex_point' = \<lparr>index = 1, data = Ref 1, id' = Str ''B'', centroid = Ref 4\<rparr>"


section \<open>The store\<close>

lemma lookup_append1: "a < length h \<Longrightarrow> lookup (h @ xs) a = lookup h a"
  by (simp add: lookup_def nth_append)

lemma lookup_update_other: "a \<noteq> n \<Longrightarrow> lookup (h[n := x]) a = lookup h a"
  by (simp add: lookup_def)

lemma lookup_update_same: "n < length h \<Longrightarrow> lookup (h[n := x]) n = Some x"
  by (simp add: lookup_def)

lemma get_elem_agree:
  assumes "below n v" and "\<And>a. a < n \<Longrightarrow> lookup h' a = lookup h a"
  shows "get_elem h' v k = get_elem h v k"
  using assms by (cases v) (simp_all add: get_elem_def below_def)

lemma field_at_agree:
  assumes "below n v" and "\<And>a. a < n \<Longrightarrow> lookup h' a = lookup h a"
  shows "field_at h' k v = field_at h k v"
  using get_elem_agree[OF assms] by (simp add: field_at_def)

lemma index_ok_row:
  assumes "index_ok rows idx"
  obtains j where "idx = Num j" "nth_js rows j = Some (row_at rows idx)"
    "row_at rows idx \<noteq> Undefined" "row_at rows idx \<noteq> Null" "row_at rows idx \<in> set rows"
  using assms
  by (cases idx) (auto simp: index_ok_def row_at_def nth_js_def split: option.splits if_splits)

lemma get_prop_row:
  assumes "lookup h ad = Some (Arr rows)" "index_ok rows idx"
  shows "get_prop h (Ref ad) idx = Inr (row_at rows idx)"
  using assms
  by (cases idx) (auto simp: get_prop_def get_elem_def index_ok_def row_at_def split: option.splits)

lemma call_row:
  assumes "lookup h fa = Some (Fn k)" "row \<noteq> Undefined" "row \<noteq> Null"
  shows "call h (Ref fa) row = Inr (field_at h k row)"
  using assms by (cases row) (auto simp: call_def field_at_def get_elem_def)

lemma lookup_less: "lookup h a = Some x \<Longrightarrow> a < length h"
  by (simp add: lookup_def split: if_splits)

lemma reducer_step:
  assumes ad: "lookup (heap st) ad = Some (Arr rows)"
    and fa: "lookup (heap st) fa = Some (Fn k)"
    and n: "lookup (heap st) n = Some (Arr ps)"
    and idx: "index_ok rows idx"
  shows "reducer (Ref ad) (Ref fa) st (Ref n) idx i =
    (Inr (Ref n),
     if truthy (get_centroid (dataToFeature st) idx)
     then st\<lparr>heap := (heap st)[n := Arr (ps @ [Ref (length (heap st))])] @
            [Point \<lparr>index = i, data = row_at rows idx,
                    id' = field_at (heap st) k (row_at rows idx),
                    centroid = get_centroid (dataToFeature st) idx\<rparr>]\<rparr>
     else st)"
proof -
  from idx obtain j where row: "row_at rows idx \<noteq> Undefined" "row_at rows idx \<noteq> Null"
    by (rule index_ok_row)
  have gp: "get_prop (heap st) (Ref ad) idx = Inr (row_at rows idx)"
    using ad idx by (rule get_prop_row)
  have cl: "call (heap st) (Ref fa) (row_at rows idx) = Inr (field_at (heap st) k (row_at rows idx))"
    using fa row by (rule call_row)
  have nl: "n < length (heap st)" using n by (rule lookup_less)
  have pu: "push (heap st @ [x]) (Ref n) v = Inr ((heap st)[n := Arr (ps @ [v])] @ [x])" for x v
    using n nl by (simp add: push_def lookup_append1 list_update_append1)
  show ?thesis
    by (simp add: reducer_def gp cl alloc_def pu Let_def)
qed

section \<open>The rebuild loop\<close>

lemma kept_step:
  "i < length F \<Longrightarrow>
   kept fc F i = (if truthy (get_centroid fc (F ! i)) then [i] else []) @ kept fc F (Suc i)"
  by (simp add: kept_def upt_conv_Cons)

lemma kept_end: "kept fc F (length F) = []"
  by (simp add: kept_def)

lemma kept_set: "j \<in> set (kept fc F i) \<Longrightarrow> j < length F"
  by (simp add: kept_def)

lemma row_at_below:
  assumes "list_all (below n) rows" "list_all (index_ok rows) F" "j < length F"
  shows "below n (row_at rows (F ! j))"
proof -
  have "index_ok rows (F ! j)" using assms(2,3) by (simp add: list_all_length)
  then have "row_at rows (F ! j) \<in> set rows" by (rule index_ok_row)
  then show ?thesis using assms(1) by (simp add: list_all_iff)
qed

lemma derived_point_agree:
  assumes "list_all (below n) rows" "list_all (index_ok rows) F" "j < length F"
    and "\<And>a. a < n \<Longrightarrow> lookup h' a = lookup h a"
  shows "derived_point h' fc rows k F j = derived_point h fc rows k F j"
  using field_at_agree[OF row_at_below[OF assms(1,2,3)] assms(4)]
  by (simp add: derived_point_def)

lemma reduce_reducer:
  assumes "lookup (heap st) ad = Some (Arr rows)"
    and "lookup (heap st) fa = Some (Fn k)"
    and "lookup (heap st) n = Some (Arr ps)"
    and "ad < n" and "fa < n"
    and "list_all (below n) rows" and "list_all (index_ok rows) F"
    and "i \<le> length F"
  shows "reduce (reducer (Ref ad) (Ref fa)) st (Ref n) (drop i F) i =
    (Inr (Ref n),
     st\<lparr>heap :=
          (heap st)[n := Arr (ps @ map Ref [length (heap st)..<
                      length (heap st) + length (kept (dataToFeature st) F i)])] @
          map (\<lambda>j. Point (derived_point (heap st) (dataToFeature st) rows k F j))
            (kept (dataToFeature st) F i)\<rparr>)"
  using assms
proof (induction "length F - i" arbitrary: i st ps)
  case 0
  then have i: "i = length F" by simp
  have "(heap st)[n := Arr ps] = heap st"
    using "0.prems"(3) by (simp add: lookup_def split: if_splits) (metis list_update_id)
  then show ?case by (simp add: i kept_end)
next
  case (Suc m)
  then have i: "i < length F" by simp
  let ?h = "heap st" and ?fc = "dataToFeature st"
  let ?idx = "F ! i"
  have idx: "index_ok rows ?idx" using Suc.prems(7) i by (simp add: list_all_length)
  have nl: "n < length ?h" using Suc.prems(3) by (rule lookup_less)
  have dr: "drop i F = ?idx # drop (Suc i) F" using i by (simp add: Cons_nth_drop_Suc)
  note step = reducer_step[OF Suc.prems(1,2,3) idx, of i]
  show ?case
  proof (cases "truthy (get_centroid ?fc ?idx)")
    case False
    have "reduce (reducer (Ref ad) (Ref fa)) st (Ref n) (drop (Suc i) F) (Suc i) = 
      (Inr (Ref n),
     st\<lparr>heap :=
          (heap st)[n := Arr (ps @ map Ref [length (heap st)..<
                      length (heap st) + length (kept (dataToFeature st) F (Suc i))])] @
          map (\<lambda>j. Point (derived_point (heap st) (dataToFeature st) rows k F j))
            (kept (dataToFeature st) F (Suc i))\<rparr>)"
      using Suc.hyps(2) i Suc.prems
      by (intro Suc.hyps(1)) simp_all
    then show ?thesis using False by (simp add: dr step kept_step[OF i])
  next
    case True
    define p where "p = derived_point ?h ?fc rows k F i"
    define h' where "h' = ?h[n := Arr (ps @ [Ref (length ?h)])] @ [Point p]"
    define st' where "st' = st\<lparr>heap := h'\<rparr>"
    have agree: "lookup h' a = lookup ?h a" if "a < n" for a
      using that nl by (simp add: h'_def lookup_def nth_append)
    have st1: "reducer (Ref ad) (Ref fa) st (Ref n) ?idx i = (Inr (Ref n), st')"
      using True by (simp add: step st'_def h'_def p_def derived_point_def)
    have l1: "lookup (heap st') ad = Some (Arr rows)"
      using agree[OF Suc.prems(4)] Suc.prems(1) by (simp add: st'_def)
    have l2: "lookup (heap st') fa = Some (Fn k)"
      using agree[OF Suc.prems(5)] Suc.prems(2) by (simp add: st'_def)
    have l3: "lookup (heap st') n = Some (Arr (ps @ [Ref (length ?h)]))"
      using nl by (simp add: st'_def h'_def lookup_def nth_append)
    have ih: "reduce (reducer (Ref ad) (Ref fa)) st' (Ref n) (drop (Suc i) F) (Suc i) =
      (Inr (Ref n),
       st'\<lparr>heap :=
          (heap st')[n := Arr ((ps @ [Ref (length ?h)]) @ map Ref [length (heap st')..<
                      length (heap st') + length (kept (dataToFeature st') F (Suc i))])] @
          map (\<lambda>j. Point (derived_point (heap st') (dataToFeature st') rows k F j))
            (kept (dataToFeature st') F (Suc i))\<rparr>)"
      using Suc.hyps(2) i Suc.prems(4,5,6,7) l1 l2 l3
      by (intro Suc.hyps(1)) simp_all
    have fc: "dataToFeature st' = ?fc" by (simp add: st'_def)
    have pts: "derived_point h' ?fc rows k F j = derived_point ?h ?fc rows k F j"
      if "j \<in> set (kept ?fc F (Suc i))" for j
      using derived_point_agree[OF Suc.prems(6,7) kept_set[OF that] agree] by simp
    have len: "length h' = Suc (length ?h)" by (simp add: h'_def)
    have upd: "h'[n := X] = ?h[n := X] @ [Point p]" for X
      using nl by (simp add: h'_def list_update_append1)
    define m where "m = length (kept ?fc F (Suc i))"
    have ups: "[length ?h..<Suc (length ?h + m)] = length ?h # [Suc (length ?h)..<Suc (length ?h + m)]"
      by (simp add: upt_conv_Cons del: upt_Suc)
    have heap_eq:
      "(heap st')[n := Arr ((ps @ [Ref (length ?h)]) @ map Ref [length (heap st')..<
                      length (heap st') + length (kept (dataToFeature st') F (Suc i))])] @
          map (\<lambda>j. Point (derived_point (heap st') (dataToFeature st') rows k F j))
            (kept (dataToFeature st') F (Suc i)) =
       ?h[n := Arr (ps @ map Ref [length ?h..<length ?h + length (kept ?fc F i)])] @
          map (\<lambda>j. Point (derived_point ?h ?fc rows k F j)) (kept ?fc F i)"
      using True
      by (simp add: fc pts kept_step[OF i] st'_def len upd p_def ups m_def[symmetric] del: upt_Suc)
    have "reduce (reducer (Ref ad) (Ref fa)) st (Ref n) (drop i F) i =
          reduce (reducer (Ref ad) (Ref fa)) st' (Ref n) (drop (Suc i) F) (Suc i)"
      by (simp add: dr st1)
    also note ih
    also have "st'\<lparr>heap := X\<rparr> = st\<lparr>heap := X\<rparr>" for X by (simp add: st'_def)
    finally show ?thesis unfolding heap_eq .
  qed
qed

lemma array_ofD:
  assumes "array_of h v = Some xs"
  obtains a where "v = Ref a" "lookup h a = Some (Arr xs)" "a < length h"
  using assms
  by (cases v) (auto simp: array_of_def lookup_def split: option.splits obj.splits if_splits)

lemma below_mono: "below n v \<Longrightarrow> n \<le> m \<Longrightarrow> below m v"
  by (cases v) (simp_all add: below_def)

lemma list_all_below_mono: "list_all (below n) xs \<Longrightarrow> n \<le> m \<Longrightarrow> list_all (below m) xs"
  by (auto simp: list_all_iff intro: below_mono)

lemma rebuild_closed:
  assumes ad: "array_of (heap st) allData = Some rows"
    and fi: "array_of (heap st) filteredIndex = Some F"
    and fa: "lookup (heap st) fa = Some (Fn k)"
    and rows: "list_all (below (length (heap st))) rows"
    and F: "list_all (index_ok rows) F"
  shows "rebuild st allData filteredIndex (Ref fa) =
           (Inr (Ref (length (heap st))), rebuilt st rows k F)"
proof -
  let ?h = "heap st" and ?n = "length (heap st)"
  from ad obtain a where a: "allData = Ref a" "lookup ?h a = Some (Arr rows)" "a < ?n"
    by (rule array_ofD)
  from fi obtain b where b: "filteredIndex = Ref b" "lookup ?h b = Some (Arr F)"
    by (rule array_ofD)
  have fal: "fa < ?n" using fa by (rule lookup_less)
  define st1 where "st1 = st\<lparr>heap := ?h @ [Arr []]\<rparr>"
  have agree: "lookup (heap st1) c = lookup ?h c" if "c < ?n" for c
    using that by (simp add: st1_def lookup_append1)
  have l1: "lookup (heap st1) a = Some (Arr rows)" using agree[OF a(3)] a(2) by simp
  have l2: "lookup (heap st1) fa = Some (Fn k)" using agree[OF fal] fa by simp
  have l3: "lookup (heap st1) ?n = Some (Arr [])" by (simp add: st1_def lookup_def)
  have loop: "reduce (reducer (Ref a) (Ref fa)) st1 (Ref ?n) (drop 0 F) 0 =
    (Inr (Ref ?n),
     st1\<lparr>heap :=
          (heap st1)[?n := Arr ([] @ map Ref [length (heap st1)..<
                      length (heap st1) + length (kept (dataToFeature st1) F 0)])] @
          map (\<lambda>j. Point (derived_point (heap st1) (dataToFeature st1) rows k F j))
            (kept (dataToFeature st1) F 0)\<rparr>)"
    by (rule reduce_reducer[OF l1 l2 l3 a(3) fal rows F]) simp
  have pts: "derived_point (heap st1) (dataToFeature st) rows k F j =
             derived_point ?h (dataToFeature st) rows k F j"
    if "j \<in> set (kept (dataToFeature st) F 0)" for j
    using derived_point_agree[OF rows F kept_set[OF that] agree] by simp
  have "rebuild st allData filteredIndex (Ref fa) =
        reduce (reducer (Ref a) (Ref fa)) st1 (Ref ?n) (drop 0 F) 0"
    by (simp add: rebuild_def a b alloc_def st1_def)
  also note loop
  finally show ?thesis
    using pts by (simp add: rebuilt_def st1_def cong: map_cong)
qed

lemma those_map_Some: "those (map Some xs) = Some xs"
  by (induction xs) simp_all

lemma dataset_of_rebuilt:
  "dataset_of (heap (rebuilt st rows k F)) (Ref (length (heap st))) =
     Some (derived_spec (heap st) (dataToFeature st) rows k F)"
proof -
  let ?n = "length (heap st)"
  let ?ks = "kept (dataToFeature st) F 0"
  let ?pts = "derived_spec (heap st) (dataToFeature st) rows k F"
  let ?h = "heap (rebuilt st rows k F)"
  have h: "?h = heap st @ Arr (map Ref [Suc ?n..<Suc ?n + length ?pts]) # map Point ?pts"
    by (simp add: rebuilt_def derived_spec_def)
  have arr: "array_of ?h (Ref ?n) = Some (map Ref [Suc ?n..<Suc ?n + length ?pts])"
    by (simp add: h array_of_def lookup_def)
  have pt: "point_of ?h (Ref j) = Some (?pts ! (j - Suc ?n))"
    if "Suc ?n \<le> j" "j < Suc ?n + length ?pts" for j
    using that by (simp add: h point_of_def lookup_def nth_append nth_Cons')
  have "map (point_of ?h) (map Ref [Suc ?n..<Suc ?n + length ?pts]) = map Some ?pts"
    by (rule nth_equalityI) (simp_all add: pt del: upt_Suc)
  then show ?thesis
    unfolding dataset_of_def arr by (simp add: those_map_Some)
qed

section \<open>The memoized accessor and the frame of a call\<close>

lemma heap_only_refl: "heap_only st st"
  by (simp add: heap_only_def)

lemma heap_only_trans: "heap_only a b \<Longrightarrow> heap_only b c \<Longrightarrow> heap_only a c"
  by (simp add: heap_only_def)

lemma formatLayerData_unfold:
  "formatLayerData env st allData filteredIndex oldLayerData opt =
     (case (if can_reuse oldLayerData opt (current_accessor st)
            then (Inr (data (the oldLayerData)), prepared env st allData oldLayerData)
            else rebuild (prepared env st allData oldLayerData) allData filteredIndex
                   (current_accessor st)) of
        (Inl e, st3) \<Rightarrow> (Inl e, st3)
      | (Inr d, st3) \<Rightarrow>
          (Inr (layer_frame env (config st) (current_accessor st) d (dataToFeature st3)), st3))"
  by (simp add: formatLayerData_def layer_frame_def prepared_def current_accessor_def resolved_def
      Let_def split: prod.splits sum.splits)

lemma this_getS2Id_hit:
  "cache st (fieldIdx (s2_id c)) = Some f \<Longrightarrow> this_getS2Id st c = (f, st)"
  by (simp add: this_getS2Id_def S2IdResolver_def)

lemma this_getS2Id_miss:
  "cache st (fieldIdx (s2_id c)) = None \<Longrightarrow>
   this_getS2Id st c =
     (Ref (length (heap st)),
      st\<lparr>heap := heap st @ [Fn (fieldIdx (s2_id c))],
         cache := (cache st)(fieldIdx (s2_id c) \<mapsto> Ref (length (heap st)))\<rparr>)"
  by (simp add: this_getS2Id_def S2IdResolver_def S2IdAccessor_def alloc_def Let_def)

lemma this_getS2Id_fields:
  assumes "this_getS2Id st c = (f, st1)"
  shows "config st1 = config st" "dataToFeature st1 = dataToFeature st"
    "metaCalls st1 = metaCalls st" "cache st1 (fieldIdx (s2_id c)) = Some f"
    "length (heap st) \<le> length (heap st1)"
    "a < length (heap st) \<Longrightarrow> lookup (heap st1) a = lookup (heap st) a"
    "cache st k = Some v \<Longrightarrow> cache st1 k = Some v"
  using assms
  by (cases "cache st (fieldIdx (s2_id c))";
      auto simp: this_getS2Id_hit this_getS2Id_miss lookup_append1)+

lemma this_getS2Id_ok:
  assumes "cache_ok st" "this_getS2Id st c = (f, st1)"
  shows "cache_ok st1" "\<exists>fa. f = Ref fa \<and> lookup (heap st1) fa = Some (Fn (fieldIdx (s2_id c)))"
proof -
  show "cache_ok st1"
  proof (cases "cache st (fieldIdx (s2_id c))")
    case None
    let ?key = "fieldIdx (s2_id c)" and ?n = "length (heap st)"
    have st1: "heap st1 = heap st @ [Fn ?key]" "cache st1 = (cache st)(?key \<mapsto> Ref ?n)"
      using None assms(2) by (auto simp: this_getS2Id_miss)
    show ?thesis
      unfolding cache_ok_def
    proof (intro allI impI)
      fix k v assume kv: "cache st1 k = Some v"
      show "\<exists>a. v = Ref a \<and> lookup (heap st1) a = Some (Fn k)"
      proof (cases "k = ?key")
        case True
        then have "v = Ref ?n" using kv st1(2) by simp
        moreover have "lookup (heap st1) ?n = Some (Fn k)"
          using True by (simp add: st1(1) lookup_def)
        ultimately show ?thesis by blast
      next
        case False
        then have "cache st k = Some v" using kv st1(2) by simp
        then obtain a where a: "v = Ref a" "lookup (heap st) a = Some (Fn k)"
          using assms(1) unfolding cache_ok_def by blast
        have "lookup (heap st1) a = Some (Fn k)"
          using a(2) lookup_less[OF a(2)] by (simp add: st1(1) lookup_append1)
        with a(1) show ?thesis by blast
      qed
    qed
  next
    case (Some v)
    then show ?thesis using assms by (simp add: this_getS2Id_hit)
  qed
  then show "\<exists>fa. f = Ref fa \<and> lookup (heap st1) fa = Some (Fn (fieldIdx (s2_id c)))"
    using this_getS2Id_fields(4)[OF assms(2)] by (simp add: cache_ok_def)
qed

lemma reducer_frame:
  assumes "reducer a f st accu idx i = (r, st')"
  shows "heap_only st st'" "r = Inr d \<Longrightarrow> d = accu"
  using assms
  by (auto simp: reducer_def heap_only_def alloc_def push_def Let_def
      split: sum.splits if_splits jsval.splits option.splits obj.splits)

lemma reduce_frame:
  assumes "reduce (reducer a f) st accu xs i = (r, st')"
  shows "heap_only st st' \<and> (\<forall>d. r = Inr d \<longrightarrow> d = accu)"
  using assms
proof (induction xs arbitrary: st i)
  case Nil
  then show ?case by (auto simp: heap_only_refl)
next
  case (Cons x xs)
  obtain r1 st1 where s: "reducer a f st accu x i = (r1, st1)" by force
  show ?case
  proof (cases r1)
    case (Inl e)
    then show ?thesis using Cons.prems s reducer_frame(1)[OF s] by auto
  next
    case (Inr d)
    then have d: "d = accu" using reducer_frame(2)[OF s] by simp
    have "reduce (reducer a f) st1 accu xs (Suc i) = (r, st')"
      using Cons.prems s Inr d by simp
    from Cons.IH[OF this] reducer_frame(1)[OF s] show ?thesis
      by (auto intro: heap_only_trans)
  qed
qed

lemma rebuild_frame:
  assumes "rebuild st allData filteredIndex f = (r, st')"
  shows "heap_only st st'" "r = Inr d \<Longrightarrow> d = Ref (length (heap st)) \<and> length (heap st) < length (heap st')"
proof -
  show "heap_only st st'"
    using assms
    by (auto simp: rebuild_def alloc_def heap_only_refl heap_only_def
        split: jsval.splits option.splits obj.splits dest!: reduce_frame)
  show "r = Inr d \<Longrightarrow> d = Ref (length (heap st)) \<and> length (heap st) < length (heap st')"
    using assms
    by (auto simp: rebuild_def alloc_def heap_only_def
        split: jsval.splits option.splits obj.splits dest!: reduce_frame)
qed

lemma resolved_fields:
  "config (resolved st) = config st"
  "dataToFeature (resolved st) = dataToFeature st"
  "metaCalls (resolved st) = metaCalls st"
  "cache (resolved st) (fieldIdx (s2_id (columns (config st)))) = Some (current_accessor st)"
  "length (heap st) \<le> length (heap (resolved st))"
  "a < length (heap st) \<Longrightarrow> lookup (heap (resolved st)) a = lookup (heap st) a"
  "cache st k = Some v \<Longrightarrow> cache (resolved st) k = Some v"
  using this_getS2Id_fields[of st "columns (config st)" "current_accessor st" "resolved st"]
  by (simp_all add: current_accessor_def resolved_def)

lemma resolved_ok:
  assumes "cache_ok st"
  shows "cache_ok (resolved st)"
    "\<exists>fa. current_accessor st = Ref fa \<and>
       lookup (heap (resolved st)) fa = Some (Fn (fieldIdx (s2_id (columns (config st)))))"
  using this_getS2Id_ok[OF assms, of "columns (config st)" "current_accessor st" "resolved st"]
  by (simp_all add: current_accessor_def resolved_def)

lemma prepared_fields:
  "heap (prepared env st allData old) = heap (resolved st)"
  "config (prepared env st allData old) = config st"
  "cache (prepared env st allData old) = cache (resolved st)"
  by (simp_all add: prepared_def updateLayerMeta_def resolved_fields)

lemma array_of_agree:
  assumes "array_of h v = Some xs" "\<And>a. a < length h \<Longrightarrow> lookup h' a = lookup h a"
  shows "array_of h' v = Some xs"
proof -
  from assms(1) obtain a where "v = Ref a" "lookup h a = Some (Arr xs)" "a < length h"
    by (rule array_ofD)
  then show ?thesis using assms(2)[of a] by (simp add: array_of_def)
qed

lemma formatLayerData_reuses:
  assumes "can_reuse oldLayerData opt (current_accessor st)"
  shows "formatLayerData env st allData filteredIndex oldLayerData opt =
    (Inr (layer_frame env (config st) (current_accessor st) (data (the oldLayerData))
            (dataToFeature st)), resolved st)"
proof -
  have "\<not> accessor_changed oldLayerData (current_accessor st)"
    using assms by (auto simp: can_reuse_def accessor_changed_def split: option.splits)
  then have "prepared env st allData oldLayerData = resolved st"
    by (simp add: prepared_def)
  then show ?thesis
    using assms by (simp add: formatLayerData_unfold resolved_fields)
qed

lemma formatLayerData_rebuilds:
  assumes ok: "cache_ok st"
    and ad: "array_of (heap st) allData = Some rows"
    and fi: "array_of (heap st) filteredIndex = Some F"
    and rows: "list_all (below (length (heap st))) rows"
    and F: "list_all (index_ok rows) F"
    and nr: "\<not> can_reuse oldLayerData opt (current_accessor st)"
  shows "formatLayerData env st allData filteredIndex oldLayerData opt =
    (Inr (layer_frame env (config st) (current_accessor st) (Ref (length (heap (resolved st))))
            (dataToFeature (prepared env st allData oldLayerData))),
     rebuilt (prepared env st allData oldLayerData) rows
       (fieldIdx (s2_id (columns (config st)))) F)"
proof -
  let ?st2 = "prepared env st allData oldLayerData"
  let ?k = "fieldIdx (s2_id (columns (config st)))"
  have h2: "heap ?st2 = heap (resolved st)" by (rule prepared_fields)
  from resolved_ok(2)[OF ok] obtain fa where
    fa: "current_accessor st = Ref fa" "lookup (heap ?st2) fa = Some (Fn ?k)"
    unfolding h2 by blast
  have agree: "lookup (heap ?st2) a = lookup (heap st) a" if "a < length (heap st)" for a
    unfolding h2 using that by (rule resolved_fields)
  have ad2: "array_of (heap ?st2) allData = Some rows" using ad agree by (rule array_of_agree)
  have fi2: "array_of (heap ?st2) filteredIndex = Some F" using fi agree by (rule array_of_agree)
  have rows2: "list_all (below (length (heap ?st2))) rows"
    using rows resolved_fields(5)[of st] unfolding h2 by (rule list_all_below_mono)
  have "rebuild ?st2 allData filteredIndex (current_accessor st) =
          (Inr (Ref (length (heap ?st2))), rebuilt ?st2 rows ?k F)"
    unfolding fa(1) by (rule rebuild_closed[OF ad2 fi2 fa(2) rows2 F])
  then show ?thesis
    using nr by (simp add: formatLayerData_unfold h2 rebuilt_def)
qed

lemma derived_spec_agree:
  assumes "list_all (below n) rows" "list_all (index_ok rows) F"
    and "\<And>a. a < n \<Longrightarrow> lookup h' a = lookup h a"
  shows "derived_spec h' fc rows k F = derived_spec h fc rows k F"
  unfolding derived_spec_def
  by (rule map_cong[OF refl]) (rule derived_point_agree[OF assms(1,2) kept_set assms(3)])

lemma formatLayerData_state:
  "heap_only (prepared env st allData oldLayerData)
     (snd (formatLayerData env st allData filteredIndex oldLayerData opt))"
proof (cases "can_reuse oldLayerData opt (current_accessor st)")
  case True
  then show ?thesis by (simp add: formatLayerData_unfold heap_only_refl)
next
  case False
  obtain r st3 where r: "rebuild (prepared env st allData oldLayerData) allData filteredIndex
      (current_accessor st) = (r, st3)" by force
  from rebuild_frame(1)[OF r] show ?thesis
    using False by (cases r) (simp_all add: formatLayerData_unfold r)
qed

lemma formatLayerData_cache:
  assumes "cache st k = Some v"
  shows "cache (snd (formatLayerData env st allData filteredIndex oldLayerData opt)) k = Some v"
  using formatLayerData_state[of env st allData oldLayerData filteredIndex opt]
    resolved_fields(7)[OF assms]
  by (simp add: heap_only_def prepared_fields)

lemma formatLayerData_Inr:
  assumes "formatLayerData env st allData filteredIndex oldLayerData opt = (Inr X, st1)"
  shows "X = layer_frame env (config st) (current_accessor st) (data X) (dataToFeature st1)"
    and "truthy (data X)"
    and "config st1 = config st"
    and "cache st1 (fieldIdx (s2_id (columns (config st)))) = Some (current_accessor st)"
proof -
  let ?st2 = "prepared env st allData oldLayerData"
  have ho: "heap_only ?st2 st1"
    using formatLayerData_state[of env st allData oldLayerData filteredIndex opt] assms by simp
  show "config st1 = config st"
    using ho by (simp add: heap_only_def prepared_fields)
  show "cache st1 (fieldIdx (s2_id (columns (config st)))) = Some (current_accessor st)"
    using ho by (simp add: heap_only_def prepared_fields resolved_fields)
  show "X = layer_frame env (config st) (current_accessor st) (data X) (dataToFeature st1)"
    using assms
    by (auto simp: formatLayerData_unfold layer_frame_def split: if_splits prod.splits sum.splits)
  show "truthy (data X)"
  proof (cases "can_reuse oldLayerData opt (current_accessor st)")
    case True
    then show ?thesis using assms
      by (auto simp: formatLayerData_reuses layer_frame_def can_reuse_def split: option.splits)
  next
    case False
    obtain r st3 where r: "rebuild ?st2 allData filteredIndex (current_accessor st) = (r, st3)"
      by force
    then have "r = Inr (data X)"
      using False assms by (cases r) (auto simp: formatLayerData_unfold layer_frame_def)
    from rebuild_frame(2)[OF r this] show ?thesis by simp
  qed
qed

lemma current_accessor_hit:
  assumes "cache st (fieldIdx (s2_id (columns (config st)))) = Some f"
  shows "current_accessor st = f" "resolved st = st"
  using this_getS2Id_hit[OF assms] by (simp_all add: current_accessor_def resolved_def)

lemma rebuilding_fresh:
  assumes "rebuilding env st st2 allData filteredIndex = (Inr fr, st3)"
  shows "data fr = Ref (length (heap st2))" "length (heap st2) < length (heap st3)"
    "heap_only st2 st3"
proof -
  obtain r s where r: "rebuild st2 allData filteredIndex (current_accessor st) = (r, s)" by force
  with assms have 1: "r = Inr (data fr)" "s = st3"
    by (cases r; auto simp: rebuilding_def layer_frame_def)+
  from rebuild_frame(2)[OF r 1(1)] rebuild_frame(1)[OF r] 1(2)
  show "data fr = Ref (length (heap st2))" "length (heap st2) < length (heap st3)"
    "heap_only st2 st3" by simp_all
qed

lemma rebuilding_state:
  "heap_only st2 (snd (rebuilding env st st2 allData filteredIndex))"
proof -
  obtain r s where r: "rebuild st2 allData filteredIndex (current_accessor st) = (r, s)" by force
  from rebuild_frame(1)[OF r] show ?thesis by (cases r) (simp_all add: rebuilding_def r)
qed

lemma formatLayerData_cases:
  "formatLayerData env st allData filteredIndex oldLayerData opt =
     (if can_reuse oldLayerData opt (current_accessor st)
      then (Inr (layer_frame env (config st) (current_accessor st) (data (the oldLayerData))
                  (dataToFeature st)), resolved st)
      else rebuilding env st (prepared env st allData oldLayerData) allData filteredIndex)"
  by (simp add: formatLayerData_reuses) (simp add: formatLayerData_unfold rebuilding_def)

section \<open>Properties of the derived dataset\<close>

lemma length_kept: "length (kept fc F i) \<le> length F - i"
  unfolding kept_def by (rule order_trans[OF length_filter_le]) simp

lemma length_filter_full: "length (filter P xs) = length xs \<longleftrightarrow> (\<forall>x\<in>set xs. P x)"
proof
  assume l: "length (filter P xs) = length xs"
  show "\<forall>x\<in>set xs. P x"
  proof
    fix x assume "x \<in> set xs"
    then show "P x" using length_filter_less[of x xs P] l by auto
  qed
next
  assume "\<forall>x\<in>set xs. P x"
  then show "length (filter P xs) = length xs" by simp
qed

lemma kept_all: "length (kept fc F 0) = length F \<longleftrightarrow> (\<forall>idx\<in>set F. truthy (get_centroid fc idx))"
proof -
  have "length (kept fc F 0) = length [0..<length F] \<longleftrightarrow>
        (\<forall>j\<in>set [0..<length F]. truthy (get_centroid fc (F ! j)))"
    unfolding kept_def by (rule length_filter_full)
  then show ?thesis by (auto simp: all_set_conv_all_nth)
qed

lemma kept_sorted: "sorted_wrt (<) (kept fc F i)"
  unfolding kept_def by (rule sorted_wrt_filter) simp

lemma index_derived_spec: "map index (derived_spec h fc rows k F) = kept fc F 0"
  by (simp add: derived_spec_def derived_point_def comp_def)

lemma rebuilt_fields:
  "dataToFeature (rebuilt st rows k F) = dataToFeature st"
  "a < length (heap st) \<Longrightarrow> lookup (heap (rebuilt st rows k F)) a = lookup (heap st) a"
  "length (heap (rebuilt st rows k F)) = length (heap st) + 1 + length (kept (dataToFeature st) F 0)"
  by (simp_all add: rebuilt_def lookup_append1)

lemma wf_inputD:
  assumes "wf_input h allData filteredIndex"
  obtains rows F where "array_of h allData = Some rows" "array_of h filteredIndex = Some F"
    "list_all (below (length h)) rows" "list_all (index_ok rows) F"
  using assms by (auto simp: wf_input_def split: option.splits)

lemma get_elem_negative:
  assumes "k < 0" "row \<noteq> Undefined" "row \<noteq> Null"
  shows "get_elem h row k = Inr Undefined"
  using assms
  by (cases row) (auto simp: get_elem_def nth_js_def split: option.splits obj.splits)

lemma derived_spec_points:
  assumes "r \<in> set (derived_spec h fc rows k F)"
  shows "truthy (centroid r)" "index r < length F" "point.data r = row_at rows (F ! index r)"
    "id' r = field_at h k (point.data r)"
  using assms by (auto simp: derived_spec_def derived_point_def kept_def)

lemma layer_frame_fallbacks:
  "\<not> truthy (sizeField cfg) \<Longrightarrow> getElevation (layer_frame env cfg f d fc) = Constant (Num 0)"
  "\<not> truthy (colorField cfg) \<Longrightarrow> getColor (layer_frame env cfg f d fc) = Constant (color cfg)"
  "\<not> truthy (coverageField cfg) \<Longrightarrow> getCoverage (layer_frame env cfg f d fc) = Constant (Num 1)"
  by (simp_all add: layer_frame_def)

lemma layer_frame_scales:
  "truthy (sizeField cfg) \<Longrightarrow>
     \<exists>sc. getElevation (layer_frame env cfg f d fc) = Encoded sc (sizeField cfg) (Some (Num 0))"
  "truthy (colorField cfg) \<Longrightarrow>
     \<exists>sc. getColor (layer_frame env cfg f d fc) = Encoded sc (colorField cfg) None"
  "truthy (coverageField cfg) \<Longrightarrow>
     \<exists>sc. getCoverage (layer_frame env cfg f d fc) = Encoded sc (coverageField cfg) (Some (Num 0))"
  by (simp_all add: layer_frame_def)

lemma layer_frame_sel:
  "data (layer_frame env cfg f d fc) = d" "getS2Id (layer_frame env cfg f d fc) = f"
  by (simp_all add: layer_frame_def)

lemma formatLayerData_rebuilt_dataset:
  assumes ok: "cache_ok st"
    and ad: "array_of (heap st) allData = Some rows"
    and fi: "array_of (heap st) filteredIndex = Some F"
    and rows: "list_all (below (length (heap st))) rows"
    and F: "list_all (index_ok rows) F"
    and nr: "\<not> can_reuse oldLayerData opt (current_accessor st)"
  shows "\<exists>fr st'.
           formatLayerData env st allData filteredIndex oldLayerData opt = (Inr fr, st') \<and>
           data fr = Ref (length (heap (resolved st))) \<and>
           dataset_of (heap st') (data fr) =
             Some (derived_spec (heap st) (dataToFeature (prepared env st allData oldLayerData))
                     rows (fieldIdx (s2_id (columns (config st)))) F) \<and>
           length (heap st') =
             length (heap (resolved st)) + 1 +
             length (derived_spec (heap st) (dataToFeature (prepared env st allData oldLayerData))
                       rows (fieldIdx (s2_id (columns (config st)))) F)"
proof -
  let ?st2 = "prepared env st allData oldLayerData"
  let ?k = "fieldIdx (s2_id (columns (config st)))"
  let ?st' = "rebuilt ?st2 rows ?k F"
  let ?fr = "layer_frame env (config st) (current_accessor st) (Ref (length (heap (resolved st))))
            (dataToFeature ?st2)"
  let ?ds = "derived_spec (heap st) (dataToFeature ?st2) rows ?k F"
  have run: "formatLayerData env st allData filteredIndex oldLayerData opt = (Inr ?fr, ?st')"
    by (rule formatLayerData_rebuilds[OF assms])
  have h2: "heap ?st2 = heap (resolved st)" by (rule prepared_fields)
  have agree: "lookup (heap ?st2) a = lookup (heap st) a" if "a < length (heap st)" for a
    using that by (simp add: h2 resolved_fields)
  have eq: "derived_spec (heap ?st2) (dataToFeature ?st2) rows ?k F = ?ds"
    using rows F agree by (rule derived_spec_agree)
  have d: "data ?fr = Ref (length (heap (resolved st)))" by (rule layer_frame_sel)
  have ds: "dataset_of (heap ?st') (data ?fr) = Some ?ds"
    using dataset_of_rebuilt[of ?st2 rows ?k F, unfolded eq] by (simp add: d h2)
  have len: "length (heap ?st') = length (heap (resolved st)) + 1 + length ?ds"
    by (simp add: rebuilt_fields h2 derived_spec_def)
  show ?thesis
    by (intro exI conjI) (rule run d ds len)+
qed

lemma layer_frame_resolvers:
  "getColor (layer_frame env cfg f d fc) =
     (case cScale_of env cfg of
        Some sc \<Rightarrow> Encoded sc (colorField cfg) None
      | None \<Rightarrow> Constant (color cfg))"
  "getElevation (layer_frame env cfg f d fc) =
     (case sScale_of cfg of
        Some sc \<Rightarrow> Encoded sc (sizeField cfg) (Some (Num 0))
      | None \<Rightarrow> Constant (Num 0))"
  "getCoverage (layer_frame env cfg f d fc) =
     (case coScale_of cfg of
        Some sc \<Rightarrow> Encoded sc (coverageField cfg) (Some (Num 0))
      | None \<Rightarrow> Constant (Num 1))"
  by (simp_all add: layer_frame_def cScale_of_def sScale_of_def coScale_of_def)


section \<open>What a call leaves of the store\<close>





lemma push_keeps:
  assumes "push h (Ref n) v = Inr h'" "c \<noteq> n"
  shows "lookup h' c = lookup h c" "length h' = length h"
  using assms
  by (auto simp: push_def lookup_update_other split: option.splits obj.splits)

lemma reducer_keeps:
  assumes "reducer a f st (Ref n) idx i = (r, st')" "c < length (heap st)" "c \<noteq> n"
  shows "lookup (heap st') c = lookup (heap st) c"
proof (cases "get_prop (heap st) a idx")
  case (Inl e)
  then show ?thesis using assms(1) by (simp add: reducer_def)
next
  case row: (Inr row)
  show ?thesis
  proof (cases "call (heap st) f row")
    case (Inl e)
    then show ?thesis using assms(1) row by (simp add: reducer_def)
  next
    case ident: (Inr ident)
    show ?thesis
    proof (cases "truthy (get_centroid (dataToFeature st) idx)")
      case False
      then show ?thesis using assms(1) row ident by (simp add: reducer_def)
    next
      case True
      let ?h1 = "heap st @ [Point \<lparr>index = i, data = row, id' = ident,
                    centroid = get_centroid (dataToFeature st) idx\<rparr>]"
      have l1: "lookup ?h1 c = lookup (heap st) c" using assms(2) by (rule lookup_append1)
      show ?thesis
      proof (cases "push ?h1 (Ref n) (Ref (length (heap st)))")
        case (Inl e)
        then show ?thesis using assms(1) row ident True l1
          by (auto simp: reducer_def alloc_def Let_def)
      next
        case (Inr h2)
        from push_keeps(1)[OF Inr assms(3)] show ?thesis
          using assms(1) row ident True l1 Inr by (auto simp: reducer_def alloc_def Let_def)
      qed
    qed
  qed
qed

lemma reduce_keeps:
  assumes "reduce (reducer a f) st (Ref n) xs i = (r, st')" "c < length (heap st)" "c \<noteq> n"
  shows "lookup (heap st') c = lookup (heap st) c"
  using assms
proof (induction xs arbitrary: st i)
  case Nil
  then show ?case by simp
next
  case (Cons x xs)
  obtain r1 st1 where s: "reducer a f st (Ref n) x i = (r1, st1)" by force
  note k = reducer_keeps[OF s Cons.prems(2,3)]
  have le: "length (heap st) \<le> length (heap st1)"
    using reducer_frame(1)[OF s] by (simp add: heap_only_def)
  show ?case
  proof (cases r1)
    case (Inl e)
    then show ?thesis using Cons.prems(1) s k by auto
  next
    case (Inr d)
    then have d: "d = Ref n" using reducer_frame(2)[OF s] by simp
    have "reduce (reducer a f) st1 (Ref n) xs (Suc i) = (r, st')"
      using Cons.prems(1) s Inr d by simp
    from Cons.IH[OF this] Cons.prems(2,3) le k show ?thesis by simp
  qed
qed

lemma rebuild_keeps:
  assumes "c < length (heap st)"
  shows "lookup (heap (snd (rebuild st allData filteredIndex f))) c = lookup (heap st) c"
proof (cases "array_of (heap st) filteredIndex")
  case None
  then have "rebuild st allData filteredIndex f = (Inl TypeError, st)"
    by (auto simp: rebuild_def array_of_def split: jsval.splits option.splits obj.splits)
  then show ?thesis by simp
next
  case (Some xs)
  then obtain b where b: "filteredIndex = Ref b" "lookup (heap st) b = Some (Arr xs)"
    by (rule array_ofD)
  let ?st1 = "st\<lparr>heap := heap st @ [Arr []]\<rparr>"
  obtain r st' where r: "reduce (reducer allData f) ?st1 (Ref (length (heap st))) xs 0 = (r, st')"
    by force
  have "lookup (heap st') c = lookup (heap ?st1) c"
    using r by (rule reduce_keeps) (use assms in simp_all)
  then show ?thesis
    using assms by (simp add: rebuild_def b alloc_def r lookup_append1)
qed

lemma formatLayerData_keeps_store:
  assumes "c < length (heap st)"
  shows "lookup (heap (snd (formatLayerData env st allData filteredIndex oldLayerData opt))) c =
         lookup (heap st) c"
proof -
  let ?st2 = "prepared env st allData oldLayerData"
  have h2: "heap ?st2 = heap (resolved st)" by (rule prepared_fields)
  have c2: "c < length (heap ?st2)" using assms resolved_fields(5)[of st] by (simp add: h2)
  show ?thesis
  proof (cases "can_reuse oldLayerData opt (current_accessor st)")
    case True
    then show ?thesis using assms by (simp add: formatLayerData_cases resolved_fields)
  next
    case False
    obtain r st3 where r: "rebuild ?st2 allData filteredIndex (current_accessor st) = (r, st3)"
      by force
    have "snd (formatLayerData env st allData filteredIndex oldLayerData opt) = st3"
      using False by (cases r) (simp_all add: formatLayerData_cases rebuilding_def r)
    then show ?thesis
      using rebuild_keeps[OF c2, of allData filteredIndex "current_accessor st"] assms
      by (simp add: r h2 resolved_fields)
  qed
qed

text \<open>The cache of a new layer is empty, and every call keeps it in order.\<close>

lemma cache_ok_new: "cache st = Map.empty \<Longrightarrow> cache_ok st"
  by (simp add: cache_ok_def)

lemma formatLayerData_cache_ok:
  assumes "cache_ok st"
  shows "cache_ok (snd (formatLayerData env st allData filteredIndex oldLayerData opt))"
proof -
  let ?st' = "snd (formatLayerData env st allData filteredIndex oldLayerData opt)"
  let ?st1 = "resolved st"
  have ok1: "cache_ok ?st1" using assms by (rule resolved_ok)
  have ho: "heap_only (prepared env st allData oldLayerData) ?st'"
    by (rule formatLayerData_state)
  have c: "cache ?st' = cache ?st1" using ho by (simp add: heap_only_def prepared_fields)
  have l: "lookup (heap ?st') a = lookup (heap ?st1) a" if "a < length (heap ?st1)" for a
  proof (cases "can_reuse oldLayerData opt (current_accessor st)")
    case True
    then show ?thesis by (simp add: formatLayerData_cases)
  next
    case False
    obtain r st3 where r: "rebuild (prepared env st allData oldLayerData) allData filteredIndex
        (current_accessor st) = (r, st3)" by force
    have "?st' = st3"
      using False by (cases r) (simp_all add: formatLayerData_cases rebuilding_def r)
    then show ?thesis
      using rebuild_keeps[of a "prepared env st allData oldLayerData" allData filteredIndex
          "current_accessor st"] that
      by (simp add: r prepared_fields)
  qed
  show ?thesis
    unfolding cache_ok_def
  proof (intro allI impI)
    fix k v assume "cache ?st' k = Some v"
    then have "cache ?st1 k = Some v" by (simp add: c)
    then obtain a where a: "v = Ref a" "lookup (heap ?st1) a = Some (Fn k)"
      using ok1 unfolding cache_ok_def by blast
    from l[OF lookup_less[OF a(2)]] a show "\<exists>a. v = Ref a \<and> lookup (heap ?st') a = Some (Fn k)"
      by simp
  qed
qed









section \<open>The scenario, evaluated\<close>

lemmas ex_defs =
  ex_env_def ex_state_def ex_config_def ex_columns_def ex_heap_def ex_cache_def ex_frame_def
  ex_after_def ex_point_def

lemmas run_defs =
  formatLayerData_def this_getS2Id_def S2IdResolver_def S2IdAccessor_def alloc_def
  accessor_changed_def can_reuse_def opt_sameData_def updateLayerMeta_def rebuild_def lookup_def
  reducer_def get_prop_def get_elem_def nth_js_def call_def get_centroid_def push_def
  getVisChannelScale_def Let_def eval_nat_numeral

lemmas spec_defs =
  array_of_def point_of_def dataset_of_def below_def index_ok_def row_at_def field_at_def
  derived_point_def derived_spec_def kept_def current_accessor_def resolved_def prepared_def

lemma ex_first_call:
  "formatLayerData ex_env ex_state (Ref 2) (Ref 3) None None =
     (Inr (ex_frame (Ref 8)), ex_after [Arr [Ref 9], Point ex_point])"
  by (simp add: run_defs ex_defs)

lemma ex_cache_ok: "cache_ok ex_state"
  by (simp add: cache_ok_def ex_state_def)

lemma ex_arrays:
  "array_of (heap ex_state) (Ref 2) = Some [Ref 0, Ref 1]"
  "array_of (heap ex_state) (Ref 3) = Some [Num 0, Num 1]"
  "list_all (below (length (heap ex_state))) [Ref 0, Ref 1]"
  "list_all (index_ok [Ref 0, Ref 1]) [Num 0, Num 1]"
proof -
  show "array_of (heap ex_state) (Ref 2) = Some [Ref 0, Ref 1]"
    by (simp add: ex_defs spec_defs lookup_def)
  show "array_of (heap ex_state) (Ref 3) = Some [Num 0, Num 1]"
    by (simp add: ex_defs spec_defs lookup_def)
  show "list_all (below (length (heap ex_state))) [Ref 0, Ref 1]"
    by (simp add: ex_defs spec_defs)
  show "list_all (index_ok [Ref 0, Ref 1]) [Num 0, Num 1]"
    by (simp add: spec_defs nth_js_def)
qed

lemma ex_wf: "wf_input (heap ex_state) (Ref 2) (Ref 3)"
  using ex_arrays by (simp add: wf_input_def)

lemma ex_unbound_ok: "cache_ok ex_unbound" "wf_input (heap ex_unbound) (Ref 2) (Ref 3)"
  using ex_wf by (simp_all add: cache_ok_def ex_unbound_def ex_state_def)

lemma ex_derived:
  "derived_spec (heap ex_state) ex_cache [Ref 0, Ref 1] 1 [Num 0, Num 1] = [ex_point]"
  by (simp add: ex_defs spec_defs get_centroid_def get_elem_def nth_js_def lookup_def upt_rec)

lemma ex_prepared: "dataToFeature (prepared ex_env ex_state (Ref 2) None) = ex_cache"
  by (simp add: prepared_def accessor_changed_def updateLayerMeta_def ex_env_def)

lemma ex_rebound_ok:
  "cache_ok ex_rebound"
  "array_of (heap ex_rebound) (Ref 2) = Some [Ref 0, Ref 1]"
  "array_of (heap ex_rebound) (Ref 3) = Some [Num 0, Num 1]"
  "list_all (below (length (heap ex_rebound))) [Ref 0, Ref 1]"
  "list_all (index_ok [Ref 0, Ref 1]) [Num 0, Num 1]"
proof -
  show "cache_ok ex_rebound"
    by (auto simp: cache_ok_def ex_rebound_def ex_after_def ex_heap_def lookup_def
        split: if_splits)
  show "array_of (heap ex_rebound) (Ref 2) = Some [Ref 0, Ref 1]"
    by (simp add: ex_rebound_def ex_defs spec_defs lookup_def)
  show "array_of (heap ex_rebound) (Ref 3) = Some [Num 0, Num 1]"
    by (simp add: ex_rebound_def ex_defs spec_defs lookup_def)
  show "list_all (below (length (heap ex_rebound))) [Ref 0, Ref 1]"
    by (simp add: ex_rebound_def ex_defs spec_defs)
  show "list_all (index_ok [Ref 0, Ref 1]) [Num 0, Num 1]"
    by (rule ex_arrays)
qed

lemma ex_rebound_accessor:
  "current_accessor ex_rebound = Ref 10"
  "heap (resolved ex_rebound) = heap ex_rebound @ [Fn 0]"
  "fieldIdx (s2_id (columns (config ex_rebound))) = 0"
  by (simp_all add: ex_rebound_def ex_defs spec_defs this_getS2Id_def S2IdResolver_def
      S2IdAccessor_def alloc_def)

lemma ex_rebound_derived:
  "derived_spec (heap ex_rebound) ex_cache' [Ref 0, Ref 1] 0 [Num 0, Num 1] = [ex_point']"
  by (simp add: ex_rebound_def ex_defs ex_cache'_def ex_point'_def spec_defs get_centroid_def
      get_elem_def nth_js_def lookup_def upt_rec)

section \<open>The claims\<close>

text \<open>
  Claim C1, as amended. The claim asks for a non-empty derived dataset; the test of
  line 161 is the truthiness of \<open>oldLayerData.data\<close>, and an empty array is
  truthy. What holds: the call returns the previous frame's dataset, the very
  reference, with nothing allocated after the accessor is resolved, if and only
  if a previous frame exists, its \<open>data\<close> is truthy, \<open>opt.sameData\<close> is truthy
  and its stored accessor is the one resolved for the current columns. When one
  of the four fails the call rebuilds: the dataset of the frame it returns is
  an array allocated in this call, and on an \<open>allData\<close> whose rows are present
  and filtered indices within it that array reads back as \<open>derived_spec\<close>, the
  full join of the filtered indices with the rows and the centroids.
\<close>

theorem reuse_iff_present_same_accessor:
  "((\<exists>fr st'. formatLayerData env st allData filteredIndex oldLayerData opt = (Inr fr, st') \<and>
        Some (data fr) = map_option data oldLayerData \<and> heap st' = heap (resolved st)) \<longleftrightarrow>
    (\<exists>old. oldLayerData = Some old \<and> truthy (data old) \<and> truthy (opt_sameData opt) \<and>
        getS2Id old = current_accessor st)) \<and>
   (\<not> (\<exists>old. oldLayerData = Some old \<and> truthy (data old) \<and> truthy (opt_sameData opt) \<and>
        getS2Id old = current_accessor st) \<longrightarrow>
    formatLayerData env st allData filteredIndex oldLayerData opt =
      rebuilding env st (prepared env st allData oldLayerData) allData filteredIndex \<and>
    (\<forall>fr st'. formatLayerData env st allData filteredIndex oldLayerData opt = (Inr fr, st') \<longrightarrow>
       data fr = Ref (length (heap (resolved st))) \<and> length (heap (resolved st)) < length (heap st')) \<and>
    (cache_ok st \<and> array_of (heap st) allData = Some rows \<and>
     array_of (heap st) filteredIndex = Some F \<and>
     list_all (below (length (heap st))) rows \<and> list_all (index_ok rows) F \<longrightarrow>
     (\<exists>fr st'.
        formatLayerData env st allData filteredIndex oldLayerData opt = (Inr fr, st') \<and>
        data fr = Ref (length (heap (resolved st))) \<and>
        dataset_of (heap st') (data fr) =
          Some (derived_spec (heap st) (dataToFeature (prepared env st allData oldLayerData))
                  rows (fieldIdx (s2_id (columns (config st)))) F))))"
proof -
  let ?c = "\<exists>old. oldLayerData = Some old \<and> truthy (data old) \<and> truthy (opt_sameData opt) \<and>
        getS2Id old = current_accessor st"
  have c: "?c \<longleftrightarrow> can_reuse oldLayerData opt (current_accessor st)"
    by (auto simp: can_reuse_def split: option.splits)
  show ?thesis
  proof (cases "can_reuse oldLayerData opt (current_accessor st)")
    case True
    then obtain old where "oldLayerData = Some old" by (auto simp: can_reuse_def split: option.splits)
    then show ?thesis using True c
      by (simp add: formatLayerData_cases layer_frame_def)
  next
    case False
    have eq: "formatLayerData env st allData filteredIndex oldLayerData opt =
      rebuilding env st (prepared env st allData oldLayerData) allData filteredIndex"
      using False by (simp add: formatLayerData_cases)
    have fresh: "data fr = Ref (length (heap (resolved st))) \<and>
        length (heap (resolved st)) < length (heap st')"
      if "formatLayerData env st allData filteredIndex oldLayerData opt = (Inr fr, st')" for fr st'
      using rebuilding_fresh(1,2)[of env st "prepared env st allData oldLayerData" allData
          filteredIndex fr st'] that
      by (simp add: eq prepared_fields)
    have no: "\<not> (\<exists>fr st'. formatLayerData env st allData filteredIndex oldLayerData opt = (Inr fr, st') \<and>
        Some (data fr) = map_option data oldLayerData \<and> heap st' = heap (resolved st))"
      using fresh by fastforce
    have content: "\<exists>fr st'.
        formatLayerData env st allData filteredIndex oldLayerData opt = (Inr fr, st') \<and>
        data fr = Ref (length (heap (resolved st))) \<and>
        dataset_of (heap st') (data fr) =
          Some (derived_spec (heap st) (dataToFeature (prepared env st allData oldLayerData))
                  rows (fieldIdx (s2_id (columns (config st)))) F)"
      if "cache_ok st" "array_of (heap st) allData = Some rows"
        "array_of (heap st) filteredIndex = Some F"
        "list_all (below (length (heap st))) rows" "list_all (index_ok rows) F"
      using formatLayerData_rebuilt_dataset[OF that False, of env] by blast
    have 1: "(\<exists>fr st'. formatLayerData env st allData filteredIndex oldLayerData opt = (Inr fr, st') \<and>
        Some (data fr) = map_option data oldLayerData \<and> heap st' = heap (resolved st)) \<longleftrightarrow> ?c"
      using no False c by blast
    have 2: "\<forall>fr st'. formatLayerData env st allData filteredIndex oldLayerData opt = (Inr fr, st') \<longrightarrow>
       data fr = Ref (length (heap (resolved st))) \<and> length (heap (resolved st)) < length (heap st')"
      using fresh by blast
    show ?thesis
      using 1 eq 2 content by (intro conjI impI) blast+
  qed
qed

text \<open>
  On the layer of the scenario: the second call with \<open>sameData\<close> reuses; the first
  call, which has no previous frame, rebuilds and returns the one record of
  row 0.
\<close>

theorem reuse_iff_present_same_accessor_witness:
  "(\<exists>fr st'. formatLayerData ex_env (ex_after [Arr []]) (Ref 2) (Ref 3) (Some (ex_frame (Ref 8)))
        (Some \<lparr>sameData = Bool True\<rparr>) = (Inr fr, st') \<and>
      Some (data fr) = map_option data (Some (ex_frame (Ref 8))) \<and>
      heap st' = heap (resolved (ex_after [Arr []]))) \<and>
   formatLayerData ex_env ex_state (Ref 2) (Ref 3) None (Some \<lparr>sameData = Bool True\<rparr>) =
     rebuilding ex_env ex_state (prepared ex_env ex_state (Ref 2) None) (Ref 2) (Ref 3) \<and>
   (\<exists>fr st'.
      formatLayerData ex_env ex_state (Ref 2) (Ref 3) None (Some \<lparr>sameData = Bool True\<rparr>) =
        (Inr fr, st') \<and>
      data fr = Ref (length (heap (resolved ex_state))) \<and>
      dataset_of (heap st') (data fr) = Some [ex_point])"
proof -
  have c: "\<exists>old. Some (ex_frame (Ref 8)) = Some old \<and> truthy (data old) \<and>
      truthy (opt_sameData (Some \<lparr>sameData = Bool True\<rparr>)) \<and>
      getS2Id old = current_accessor (ex_after [Arr []])"
    by (simp add: ex_defs spec_defs this_getS2Id_def S2IdResolver_def opt_sameData_def)
  have n: "\<not> (\<exists>old. None = Some old \<and> truthy (data old) \<and>
      truthy (opt_sameData (Some \<lparr>sameData = Bool True\<rparr>)) \<and>
      getS2Id old = current_accessor ex_state)"
    by simp
  have wf: "cache_ok ex_state \<and> array_of (heap ex_state) (Ref 2) = Some [Ref 0, Ref 1] \<and>
     array_of (heap ex_state) (Ref 3) = Some [Num 0, Num 1] \<and>
     list_all (below (length (heap ex_state))) [Ref 0, Ref 1] \<and>
     list_all (index_ok [Ref 0, Ref 1]) [Num 0, Num 1]"
    using ex_cache_ok ex_arrays by (intro conjI)
  have k: "fieldIdx (s2_id (columns (config ex_state))) = 1"
    by (simp add: ex_state_def ex_config_def ex_columns_def)
  note t1 = reuse_iff_present_same_accessor[of ex_env "ex_after [Arr []]" "Ref 2" "Ref 3"
      "Some (ex_frame (Ref 8))" "Some \<lparr>sameData = Bool True\<rparr>", THEN conjunct1, THEN iffD2, OF c]
  note t = reuse_iff_present_same_accessor[of ex_env ex_state "Ref 2" "Ref 3" None
      "Some \<lparr>sameData = Bool True\<rparr>" "[Ref 0, Ref 1]" "[Num 0, Num 1]",
      THEN conjunct2, THEN mp, OF n]
  note t2 = t[THEN conjunct1]
  note t3 = t[THEN conjunct2, THEN conjunct2, THEN mp, OF wf,
      unfolded ex_prepared k ex_derived]
  from t1 t2 t3 show ?thesis by (intro conjI)
qed

text \<open>
  The claim as it is written fails on an empty dataset. A first call with an empty
  filter leaves the dataset \<open>[]\<close> at address 8; the next call, with the filter
  \<open>[0, 1]\<close> and \<open>sameData\<close>, returns that same empty array and allocates nothing,
  although the previous frame carries no non-empty dataset.
\<close>

theorem reuse_of_empty_dataset_counterexample:
  "formatLayerData ex_env ex_state (Ref 2) (Ref 6) None None =
     (Inr (ex_frame (Ref 8)), ex_after [Arr []]) \<and>
   formatLayerData ex_env (ex_after [Arr []]) (Ref 2) (Ref 3) (Some (ex_frame (Ref 8)))
     (Some \<lparr>sameData = Bool True\<rparr>) = (Inr (ex_frame (Ref 8)), ex_after [Arr []]) \<and>
   \<not> nonempty_dataset (heap (ex_after [Arr []])) (data (ex_frame (Ref 8)))"
  by (simp add: run_defs ex_defs nonempty_dataset_def array_of_def)

text \<open>
  Claim C2. When the call rebuilds, on an \<open>allData\<close> whose rows are present and
  filtered indices within it, the dataset it returns reads back as
  \<open>derived_spec\<close>: the record \<open>{index: i, data: allData[F[i]], id:
  accessor(allData[F[i]]), centroid}\<close> for exactly the positions \<open>i\<close> whose raw
  index has a truthy centroid in the refreshed geometry cache, in the order of
  the filtered indices. So it is no longer than \<open>F\<close>, as long as \<open>F\<close> if and only if
  every index of \<open>F\<close> has a centroid, and the positions it keeps are the
  increasing list of the positions with a centroid.
\<close>

theorem rebuilt_dataset_is_filtered_join:
  assumes "cache_ok st"
    and "array_of (heap st) allData = Some rows"
    and "array_of (heap st) filteredIndex = Some F"
    and "list_all (below (length (heap st))) rows"
    and "list_all (index_ok rows) F"
    and "\<not> can_reuse oldLayerData opt (current_accessor st)"
    and "fc = dataToFeature (prepared env st allData oldLayerData)"
    and "ds = derived_spec (heap st) fc rows (fieldIdx (s2_id (columns (config st)))) F"
  shows "(\<exists>fr st'. formatLayerData env st allData filteredIndex oldLayerData opt = (Inr fr, st') \<and>
            dataset_of (heap st') (data fr) = Some ds) \<and>
         length ds \<le> length F \<and>
         (length ds = length F \<longleftrightarrow> (\<forall>idx\<in>set F. truthy (get_centroid fc idx))) \<and>
         map index ds = filter (\<lambda>i. truthy (get_centroid fc (F ! i))) [0..<length F]"
proof -
  let ?st2 = "prepared env st allData oldLayerData"
  let ?k = "fieldIdx (s2_id (columns (config st)))"
  note run = formatLayerData_rebuilds[OF assms(1-6), of env]
  have agree: "lookup (heap ?st2) a = lookup (heap st) a" if "a < length (heap st)" for a
    using that by (simp add: prepared_fields resolved_fields)
  have "derived_spec (heap ?st2) fc rows ?k F = ds"
    unfolding assms(8) using assms(4,5) agree by (rule derived_spec_agree)
  then have "dataset_of (heap (rebuilt ?st2 rows ?k F)) (Ref (length (heap ?st2))) = Some ds"
    using dataset_of_rebuilt[of ?st2 rows ?k F] by (simp add: assms(7))
  then have 1: "\<exists>fr st'. formatLayerData env st allData filteredIndex oldLayerData opt = (Inr fr, st') \<and>
            dataset_of (heap st') (data fr) = Some ds"
    by (simp add: run layer_frame_def prepared_fields)
  have len: "length ds = length (kept fc F 0)"
    by (simp add: assms(8) derived_spec_def)
  have 2: "length ds \<le> length F" using length_kept[of fc F 0] by (simp add: len)
  have 3: "length ds = length F \<longleftrightarrow> (\<forall>idx\<in>set F. truthy (get_centroid fc idx))"
    unfolding len by (rule kept_all)
  have 4: "map index ds = filter (\<lambda>i. truthy (get_centroid fc (F ! i))) [0..<length F]"
    by (simp add: assms(8) index_derived_spec kept_def)
  from 1 2 3 4 show ?thesis by blast
qed

text \<open>
  The scenario of the specification: a centroid for row 0 only and \<open>F = [0, 1]\<close> give
  exactly one record, for raw index 0 at position 0.
\<close>

theorem rebuilt_dataset_is_filtered_join_witness:
  "cache_ok ex_state \<and>
   array_of (heap ex_state) (Ref 2) = Some [Ref 0, Ref 1] \<and>
   array_of (heap ex_state) (Ref 3) = Some [Num 0, Num 1] \<and>
   list_all (below (length (heap ex_state))) [Ref 0, Ref 1] \<and>
   list_all (index_ok [Ref 0, Ref 1]) [Num 0, Num 1] \<and>
   \<not> can_reuse None None (current_accessor ex_state) \<and>
   ex_cache = dataToFeature (prepared ex_env ex_state (Ref 2) None) \<and>
   [ex_point] = derived_spec (heap ex_state) ex_cache [Ref 0, Ref 1]
                  (fieldIdx (s2_id (columns (config ex_state)))) [Num 0, Num 1] \<and>
   (\<exists>fr st'. formatLayerData ex_env ex_state (Ref 2) (Ref 3) None None = (Inr fr, st') \<and>
      dataset_of (heap st') (data fr) = Some [ex_point])"
proof -
  have 1: "cache_ok ex_state" by (simp add: cache_ok_def ex_state_def)
  have 2: "array_of (heap ex_state) (Ref 2) = Some [Ref 0, Ref 1]"
    by (simp add: ex_defs spec_defs lookup_def)
  have 3: "array_of (heap ex_state) (Ref 3) = Some [Num 0, Num 1]"
    by (simp add: ex_defs spec_defs lookup_def)
  have 4: "list_all (below (length (heap ex_state))) [Ref 0, Ref 1]"
    by (simp add: ex_defs spec_defs)
  have 5: "list_all (index_ok [Ref 0, Ref 1]) [Num 0, Num 1]"
    by (simp add: spec_defs nth_js_def)
  have 6: "\<not> can_reuse None None (current_accessor ex_state)"
    by (simp add: can_reuse_def)
  have 7: "ex_cache = dataToFeature (prepared ex_env ex_state (Ref 2) None)"
    by (simp add: prepared_def accessor_changed_def updateLayerMeta_def ex_env_def)
  have 8: "[ex_point] = derived_spec (heap ex_state) ex_cache [Ref 0, Ref 1]
                  (fieldIdx (s2_id (columns (config ex_state)))) [Num 0, Num 1]"
    by (simp add: ex_defs spec_defs get_centroid_def get_elem_def nth_js_def lookup_def upt_rec)
  note t = rebuilt_dataset_is_filtered_join[OF 1 2 3 4 5 6 7 8, THEN conjunct1]
  from 1 2 3 4 5 6 7 8 t show ?thesis by (intro conjI)
qed

text \<open>
  Claim C3. When there is no previous frame, or its stored accessor is not the one
  resolved now, the call is the rebuild run on the state \<open>updateLayerMeta\<close> has
  left: the geometry component has received \<open>(allData, accessor)\<close> as its last
  call, and the result does not depend on \<open>opt\<close>, so \<open>sameData\<close> is ignored. On
  an \<open>allData\<close> whose rows are present and filtered indices within it, the
  dataset returned is a new array that reads back as \<open>derived_spec\<close> over the
  centroids the geometry component has just computed, not over those the layer
  held before the call.
\<close>

theorem accessor_change_refreshes_geometry_then_rebuilds:
  assumes "oldLayerData = None \<or> getS2Id (the oldLayerData) \<noteq> current_accessor st"
  shows "formatLayerData env st allData filteredIndex oldLayerData opt =
           rebuilding env st (updateLayerMeta env (resolved st) allData (current_accessor st))
             allData filteredIndex \<and>
         metaCalls (snd (formatLayerData env st allData filteredIndex oldLayerData opt)) =
           metaCalls st @ [(allData, current_accessor st)] \<and>
         dataToFeature (snd (formatLayerData env st allData filteredIndex oldLayerData opt)) =
           geometry env (heap (resolved st)) allData (current_accessor st) \<and>
         formatLayerData env st allData filteredIndex oldLayerData opt' =
           formatLayerData env st allData filteredIndex oldLayerData opt \<and>
         (cache_ok st \<and> array_of (heap st) allData = Some rows \<and>
          array_of (heap st) filteredIndex = Some F \<and>
          list_all (below (length (heap st))) rows \<and> list_all (index_ok rows) F \<longrightarrow>
          (\<exists>fr st'.
             formatLayerData env st allData filteredIndex oldLayerData opt = (Inr fr, st') \<and>
             data fr = Ref (length (heap (resolved st))) \<and>
             dataset_of (heap st') (data fr) =
               Some (derived_spec (heap st)
                       (geometry env (heap (resolved st)) allData (current_accessor st))
                       rows (fieldIdx (s2_id (columns (config st)))) F)))"
proof -
  let ?st2 = "updateLayerMeta env (resolved st) allData (current_accessor st)"
  have ch: "accessor_changed oldLayerData (current_accessor st)"
    using assms by (auto simp: accessor_changed_def split: option.splits)
  then have nr: "\<not> can_reuse oldLayerData p (current_accessor st)" for p
    by (auto simp: accessor_changed_def can_reuse_def split: option.splits)
  have p: "prepared env st allData oldLayerData = ?st2"
    using ch by (simp add: prepared_def)
  have eq: "formatLayerData env st allData filteredIndex oldLayerData p =
           rebuilding env st ?st2 allData filteredIndex" for p
    using nr[of p] by (simp add: formatLayerData_cases p)
  have ho: "heap_only ?st2 (snd (rebuilding env st ?st2 allData filteredIndex))"
    by (rule rebuilding_state)
  have first: "formatLayerData env st allData filteredIndex oldLayerData opt =
           rebuilding env st ?st2 allData filteredIndex \<and>
         metaCalls (snd (formatLayerData env st allData filteredIndex oldLayerData opt)) =
           metaCalls st @ [(allData, current_accessor st)] \<and>
         dataToFeature (snd (formatLayerData env st allData filteredIndex oldLayerData opt)) =
           geometry env (heap (resolved st)) allData (current_accessor st) \<and>
         formatLayerData env st allData filteredIndex oldLayerData opt' =
           formatLayerData env st allData filteredIndex oldLayerData opt"
    using ho by (simp add: eq heap_only_def updateLayerMeta_def resolved_fields)
  have fc: "dataToFeature (prepared env st allData oldLayerData) =
        geometry env (heap (resolved st)) allData (current_accessor st)"
    by (simp add: p updateLayerMeta_def)
  have content: "\<exists>fr st'.
             formatLayerData env st allData filteredIndex oldLayerData opt = (Inr fr, st') \<and>
             data fr = Ref (length (heap (resolved st))) \<and>
             dataset_of (heap st') (data fr) =
               Some (derived_spec (heap st)
                       (geometry env (heap (resolved st)) allData (current_accessor st))
                       rows (fieldIdx (s2_id (columns (config st)))) F)"
    if "cache_ok st" "array_of (heap st) allData = Some rows"
      "array_of (heap st) filteredIndex = Some F"
      "list_all (below (length (heap st))) rows" "list_all (index_ok rows) F"
    using formatLayerData_rebuilt_dataset[OF that nr, of env opt] unfolding fc by blast
  show ?thesis
    using first content by blast
qed

text \<open>
  The column is rebound from field 1 to field 0 after a first call, and the
  geometry component answers the new accessor with a centroid for row 1 only,
  where the layer held one for row 0 only. The accessor is a new closure (10),
  the geometry is signalled again, and the call with \<open>sameData\<close> returns a new
  dataset (11) whose one record is row 1: the refreshed centroids were read.
\<close>

theorem accessor_change_refreshes_geometry_then_rebuilds_witness:
  "getS2Id (ex_frame (Ref 8)) \<noteq> current_accessor ex_rebound \<and>
   dataToFeature ex_rebound = ex_cache \<and>
   geometry ex_env' (heap (resolved ex_rebound)) (Ref 2) (current_accessor ex_rebound) = ex_cache' \<and>
   metaCalls (snd (formatLayerData ex_env' ex_rebound (Ref 2) (Ref 3) (Some (ex_frame (Ref 8)))
                     (Some \<lparr>sameData = Bool True\<rparr>))) =
     metaCalls ex_rebound @ [(Ref 2, current_accessor ex_rebound)] \<and>
   (\<exists>fr st'.
      formatLayerData ex_env' ex_rebound (Ref 2) (Ref 3) (Some (ex_frame (Ref 8)))
        (Some \<lparr>sameData = Bool True\<rparr>) = (Inr fr, st') \<and>
      data fr = Ref (length (heap (resolved ex_rebound))) \<and>
      dataset_of (heap st') (data fr) = Some [ex_point'])"
proof -
  have a: "getS2Id (ex_frame (Ref 8)) \<noteq> current_accessor ex_rebound"
    by (simp add: ex_rebound_accessor ex_frame_def)
  then have h: "Some (ex_frame (Ref 8)) = None \<or>
      getS2Id (the (Some (ex_frame (Ref 8)))) \<noteq> current_accessor ex_rebound"
    by simp
  have s: "dataToFeature ex_rebound = ex_cache"
    by (simp add: ex_rebound_def ex_after_def)
  have g: "geometry ex_env' (heap (resolved ex_rebound)) (Ref 2) (current_accessor ex_rebound) =
      ex_cache'"
    by (simp add: ex_env'_def ex_rebound_accessor)
  have wf: "cache_ok ex_rebound \<and> array_of (heap ex_rebound) (Ref 2) = Some [Ref 0, Ref 1] \<and>
     array_of (heap ex_rebound) (Ref 3) = Some [Num 0, Num 1] \<and>
     list_all (below (length (heap ex_rebound))) [Ref 0, Ref 1] \<and>
     list_all (index_ok [Ref 0, Ref 1]) [Num 0, Num 1]"
    using ex_rebound_ok by (intro conjI)
  note t = accessor_change_refreshes_geometry_then_rebuilds[OF h, of ex_env' "Ref 2" "Ref 3"
      "Some \<lparr>sameData = Bool True\<rparr>" "Some \<lparr>sameData = Bool True\<rparr>"
      "[Ref 0, Ref 1]" "[Num 0, Num 1]"]
  note t1 = t[THEN conjunct2, THEN conjunct1]
  note t2 = t[THEN conjunct2, THEN conjunct2, THEN conjunct2, THEN conjunct2, THEN mp, OF wf,
      unfolded g ex_rebound_accessor(3) ex_rebound_derived]
  from a s g t1 t2 show ?thesis by (intro conjI)
qed

text \<open>
  Claim C4. Two column bindings whose \<open>s2_id\<close> field has the same field index get
  the same function instance from the memoized getter, whatever else differs in
  them: the second call finds the first call's closure under their common key.
  The cache never drops an entry, so this also holds with a call of
  \<open>formatLayerData\<close> in between.
\<close>

theorem getS2Id_same_field_same_instance:
  assumes "fieldIdx (s2_id c1) = fieldIdx (s2_id c2)"
  shows "fst (this_getS2Id (snd (this_getS2Id st c1)) c2) = fst (this_getS2Id st c1) \<and>
         fst (this_getS2Id
                (snd (formatLayerData env (snd (this_getS2Id st c1)) allData filteredIndex
                        oldLayerData opt)) c2) = fst (this_getS2Id st c1)"
proof -
  obtain f st1 where s: "this_getS2Id st c1 = (f, st1)" by force
  have c: "cache st1 (fieldIdx (s2_id c2)) = Some f"
    using this_getS2Id_fields(4)[OF s] assms by simp
  have "this_getS2Id st1 c2 = (f, st1)" using c by (rule this_getS2Id_hit)
  moreover have "this_getS2Id (snd (formatLayerData env st1 allData filteredIndex oldLayerData opt)) c2 =
      (f, snd (formatLayerData env st1 allData filteredIndex oldLayerData opt))"
    using formatLayerData_cache[OF c] by (rule this_getS2Id_hit)
  ultimately show ?thesis by (simp add: s)
qed

text \<open>Two bindings that differ in the field's name and share the field index 1.\<close>

theorem getS2Id_same_field_same_instance_witness:
  "fieldIdx (s2_id ex_columns) = fieldIdx (s2_id ex_columns') \<and>
   ex_columns \<noteq> ex_columns' \<and>
   fst (this_getS2Id ex_state ex_columns) = Ref 7 \<and>
   fst (this_getS2Id (snd (this_getS2Id ex_state ex_columns)) ex_columns') =
     fst (this_getS2Id ex_state ex_columns)"
proof -
  have h: "fieldIdx (s2_id ex_columns) = fieldIdx (s2_id ex_columns')"
    by (simp add: ex_columns_def ex_columns'_def)
  have d: "ex_columns \<noteq> ex_columns'"
    by (simp add: ex_columns_def ex_columns'_def)
  have v: "fst (this_getS2Id ex_state ex_columns) = Ref 7"
    by (simp add: this_getS2Id_miss ex_state_def ex_columns_def ex_heap_def)
  have r: "fst (this_getS2Id (snd (this_getS2Id ex_state ex_columns)) ex_columns') =
     fst (this_getS2Id ex_state ex_columns)"
    by (rule getS2Id_same_field_same_instance[OF h, THEN conjunct1])
  from h d v r show ?thesis by (intro conjI)
qed

text \<open>
  Claim C5. When a call has returned the frame \<open>X\<close>, a second call on the same
  inputs, with \<open>X\<close> as the previous frame and a truthy \<open>sameData\<close>, returns \<open>X\<close>
  again, dataset reference included, and leaves the state as it was: nothing is
  allocated. The first call may have any \<open>opt\<close>, \<open>sameData = false\<close> among them.
\<close>

theorem second_call_returns_first_dataset:
  assumes "formatLayerData env st allData filteredIndex oldLayerData opt = (Inr X, st1)"
    and "truthy (opt_sameData opt')"
  shows "formatLayerData env st1 allData filteredIndex (Some X) opt' = (Inr X, st1)"
proof -
  note X = formatLayerData_Inr[OF assms(1)]
  have c: "cache st1 (fieldIdx (s2_id (columns (config st1)))) = Some (current_accessor st)"
    using X(3,4) by simp
  note hit = current_accessor_hit[OF c]
  have f: "getS2Id X = current_accessor st"
    by (subst X(1)) (simp add: layer_frame_def)
  have "can_reuse (Some X) opt' (current_accessor st1)"
    using X(2) assms(2) f hit(1) by (simp add: can_reuse_def)
  from formatLayerData_reuses[OF this, of env allData filteredIndex]
  show ?thesis using X(1) by (simp add: hit X(3))
qed

text \<open>The two calls of the specification's scenario: the dataset at address 8 is returned twice.\<close>

theorem second_call_returns_first_dataset_witness:
  "formatLayerData ex_env ex_state (Ref 2) (Ref 3) None (Some \<lparr>sameData = Bool False\<rparr>) =
     (Inr (ex_frame (Ref 8)), ex_after [Arr [Ref 9], Point ex_point]) \<and>
   truthy (opt_sameData (Some \<lparr>sameData = Bool True\<rparr>)) \<and>
   formatLayerData ex_env (ex_after [Arr [Ref 9], Point ex_point]) (Ref 2) (Ref 3)
     (Some (ex_frame (Ref 8))) (Some \<lparr>sameData = Bool True\<rparr>) =
     (Inr (ex_frame (Ref 8)), ex_after [Arr [Ref 9], Point ex_point])"
proof -
  have a: "formatLayerData ex_env ex_state (Ref 2) (Ref 3) None (Some \<lparr>sameData = Bool False\<rparr>) =
     (Inr (ex_frame (Ref 8)), ex_after [Arr [Ref 9], Point ex_point])"
    by (simp add: run_defs ex_defs)
  have b: "truthy (opt_sameData (Some \<lparr>sameData = Bool True\<rparr>))"
    by (simp add: opt_sameData_def)
  from a b second_call_returns_first_dataset[OF a b] show ?thesis by (intro conjI)
qed

text \<open>
  Claim C6, as amended. The claim calls the resolver, \<open>getColor(anyRecord)\<close>; lines
  185 to 195 return the fallback itself where no scale was built, not a function
  of the record. What holds: each resolver of the frame is decided by the scale
  of its own channel, as lines 185 to 195 read. A channel whose field is
  falsy, \<open>null\<close> included, gets no scale and the frame holds the constant under
  the resolver's name, \<open>getColor = color\<close>, \<open>getElevation = 0\<close>, \<open>getCoverage =
  1\<close>. A channel whose field is set holds the closure over exactly the scale
  \<open>getVisChannelScale\<close> returns for that channel's scale kind, domain and range,
  its own field and its own null value.
\<close>

theorem inactive_channel_resolver_is_the_constant:
  assumes "formatLayerData env st allData filteredIndex oldLayerData opt = (Inr fr, st')"
  shows "getColor fr =
           (case cScale_of env (config st) of
              Some sc \<Rightarrow> Encoded sc (colorField (config st)) None
            | None \<Rightarrow> Constant (color (config st))) \<and>
         getElevation fr =
           (case sScale_of (config st) of
              Some sc \<Rightarrow> Encoded sc (sizeField (config st)) (Some (Num 0))
            | None \<Rightarrow> Constant (Num 0)) \<and>
         getCoverage fr =
           (case coScale_of (config st) of
              Some sc \<Rightarrow> Encoded sc (coverageField (config st)) (Some (Num 0))
            | None \<Rightarrow> Constant (Num 1)) \<and>
         (\<not> truthy (colorField (config st)) \<longrightarrow>
            cScale_of env (config st) = None \<and> getColor fr = Constant (color (config st))) \<and>
         (\<not> truthy (sizeField (config st)) \<longrightarrow>
            sScale_of (config st) = None \<and> getElevation fr = Constant (Num 0)) \<and>
         (\<not> truthy (coverageField (config st)) \<longrightarrow>
            coScale_of (config st) = None \<and> getCoverage fr = Constant (Num 1)) \<and>
         (truthy (colorField (config st)) \<longrightarrow>
            getColor fr =
              Encoded (getVisChannelScale (colorScale (config st)) (colorDomain (config st))
                         (Rgb (map (hexToRgb env) (colors (colorRange (visConfig (config st))))))
                         None)
                (colorField (config st)) None) \<and>
         (truthy (sizeField (config st)) \<longrightarrow>
            getElevation fr =
              Encoded (getVisChannelScale (sizeScale (config st)) (sizeDomain (config st))
                         (Plain (sizeRange (visConfig (config st)))) (Some (Num 0)))
                (sizeField (config st)) (Some (Num 0))) \<and>
         (truthy (coverageField (config st)) \<longrightarrow>
            getCoverage fr =
              Encoded (getVisChannelScale (coverageScale (config st)) (coverageDomain (config st))
                         (Plain (coverageRange (visConfig (config st)))) (Some (Num 0)))
                (coverageField (config st)) (Some (Num 0)))"
proof -
  have fr: "fr = layer_frame env (config st) (current_accessor st) (data fr) (dataToFeature st')"
    by (rule formatLayerData_Inr(1)[OF assms])
  have c: "getColor fr =
           (case cScale_of env (config st) of
              Some sc \<Rightarrow> Encoded sc (colorField (config st)) None
            | None \<Rightarrow> Constant (color (config st)))"
    by (subst fr) (rule layer_frame_resolvers)
  have s: "getElevation fr =
           (case sScale_of (config st) of
              Some sc \<Rightarrow> Encoded sc (sizeField (config st)) (Some (Num 0))
            | None \<Rightarrow> Constant (Num 0))"
    by (subst fr) (rule layer_frame_resolvers)
  have co: "getCoverage fr =
           (case coScale_of (config st) of
              Some sc \<Rightarrow> Encoded sc (coverageField (config st)) (Some (Num 0))
            | None \<Rightarrow> Constant (Num 1))"
    by (subst fr) (rule layer_frame_resolvers)
  show ?thesis
    unfolding c s co
    by (simp add: cScale_of_def sScale_of_def coScale_of_def)
qed

text \<open>The layer of the scenario has no channel field set: no scale, three constants.\<close>

theorem inactive_channel_resolver_is_the_constant_witness:
  "formatLayerData ex_env ex_state (Ref 2) (Ref 3) None None =
     (Inr (ex_frame (Ref 8)), ex_after [Arr [Ref 9], Point ex_point]) \<and>
   colorField (config ex_state) = Null \<and> sizeField (config ex_state) = Null \<and>
   coverageField (config ex_state) = Null \<and>
   cScale_of ex_env (config ex_state) = None \<and>
   getColor (ex_frame (Ref 8)) = Constant (color (config ex_state)) \<and>
   sScale_of (config ex_state) = None \<and>
   getElevation (ex_frame (Ref 8)) = Constant (Num 0) \<and>
   coScale_of (config ex_state) = None \<and>
   getCoverage (ex_frame (Ref 8)) = Constant (Num 1)"
proof -
  have f: "colorField (config ex_state) = Null" "sizeField (config ex_state) = Null"
    "coverageField (config ex_state) = Null"
    by (simp_all add: ex_state_def ex_config_def)
  have n: "\<not> truthy (colorField (config ex_state))" "\<not> truthy (sizeField (config ex_state))"
    "\<not> truthy (coverageField (config ex_state))"
    by (simp_all add: f)
  note t = inactive_channel_resolver_is_the_constant[OF ex_first_call,
      THEN conjunct2, THEN conjunct2, THEN conjunct2]
  note t1 = t[THEN conjunct1, THEN mp, OF n(1)]
  note t2 = t[THEN conjunct2, THEN conjunct1, THEN mp, OF n(2)]
  note t3 = t[THEN conjunct2, THEN conjunct2, THEN conjunct1, THEN mp, OF n(3)]
  from ex_first_call f t1[THEN conjunct1] t1[THEN conjunct2] t2[THEN conjunct1]
    t2[THEN conjunct2] t3[THEN conjunct1] t3[THEN conjunct2]
  show ?thesis by (intro conjI)
qed

text \<open>
  The claim as it is written fails: with the three fields \<open>null\<close>, calling what the
  frame holds under \<open>getColor\<close>, \<open>getElevation\<close> or \<open>getCoverage\<close> on the record
  of the dataset is a TypeError, since an array and a number are no functions.
\<close>

theorem constant_resolver_is_not_callable_counterexample:
  "colorField (config ex_state) = Null \<and> sizeField (config ex_state) = Null \<and>
   coverageField (config ex_state) = Null \<and>
   formatLayerData ex_env ex_state (Ref 2) (Ref 3) None None =
     (Inr (ex_frame (Ref 8)), ex_after [Arr [Ref 9], Point ex_point]) \<and>
   point_of (heap (ex_after [Arr [Ref 9], Point ex_point])) (Ref 9) = Some ex_point \<and>
   call_resolver ex_env (heap (ex_after [Arr [Ref 9], Point ex_point]))
     (getColor (ex_frame (Ref 8))) (Ref 9) = Inl TypeError \<and>
   call_resolver ex_env (heap (ex_after [Arr [Ref 9], Point ex_point]))
     (getElevation (ex_frame (Ref 8))) (Ref 9) = Inl TypeError \<and>
   call_resolver ex_env (heap (ex_after [Arr [Ref 9], Point ex_point]))
     (getCoverage (ex_frame (Ref 8))) (Ref 9) = Inl TypeError"
  by (simp add: ex_first_call)
    (simp add: call_resolver_def call_def lookup_def point_of_def ex_defs eval_nat_numeral)

text \<open>
  Claim C7. On an \<open>allData\<close> whose rows are present and filtered indices within
  it, every call returns a frame, whatever the configuration, the geometry
  cache and the previous frame: a channel without a field gets its constant, a
  rebuilt dataset holds only records with a centroid, and the accessor of an
  unbound column (a negative field index) reads \<open>undefined\<close> from every row.
\<close>

theorem missing_inputs_raise_nothing:
  assumes "cache_ok st" and "wf_input (heap st) allData filteredIndex"
  shows "\<exists>fr st'.
           formatLayerData env st allData filteredIndex oldLayerData opt = (Inr fr, st') \<and>
           (\<not> truthy (sizeField (config st)) \<longrightarrow> getElevation fr = Constant (Num 0)) \<and>
           (\<not> truthy (colorField (config st)) \<longrightarrow> getColor fr = Constant (color (config st))) \<and>
           (\<not> truthy (coverageField (config st)) \<longrightarrow> getCoverage fr = Constant (Num 1)) \<and>
           (\<not> can_reuse oldLayerData opt (current_accessor st) \<longrightarrow>
              (\<exists>ds. dataset_of (heap st') (data fr) = Some ds \<and>
                    (\<forall>r\<in>set ds. truthy (centroid r)))) \<and>
           (fieldIdx (s2_id (columns (config st))) < 0 \<longrightarrow>
              (\<forall>row. row \<noteq> Undefined \<and> row \<noteq> Null \<longrightarrow>
                     call (heap st') (getS2Id fr) row = Inr Undefined))"
proof -
  let ?st2 = "prepared env st allData oldLayerData"
  let ?k = "fieldIdx (s2_id (columns (config st)))"
  let ?f = "current_accessor st"
  have h2: "heap ?st2 = heap (resolved st)" by (rule prepared_fields)
  from resolved_ok(2)[OF assms(1)] obtain fa where
    fa: "?f = Ref fa" "lookup (heap (resolved st)) fa = Some (Fn ?k)" by blast
  have reads: "call h ?f row = Inr Undefined"
    if "lookup h fa = Some (Fn ?k)" "?k < 0" "row \<noteq> Undefined" "row \<noteq> Null" for h row
    using that(1) get_elem_negative[OF that(2,3,4), of h] by (simp add: call_def fa(1))
  show ?thesis
  proof (cases "can_reuse oldLayerData opt ?f")
    case True
    let ?fr = "layer_frame env (config st) ?f (data (the oldLayerData)) (dataToFeature st)"
    have run: "formatLayerData env st allData filteredIndex oldLayerData opt = (Inr ?fr, resolved st)"
      using True by (rule formatLayerData_reuses)
    have acc: "?k < 0 \<longrightarrow> (\<forall>row. row \<noteq> Undefined \<and> row \<noteq> Null \<longrightarrow>
                     call (heap (resolved st)) (getS2Id ?fr) row = Inr Undefined)"
      using reads[OF fa(2)] by (simp add: layer_frame_sel)
    show ?thesis
      using True acc by (intro exI[of _ ?fr] exI[of _ "resolved st"])
        (simp add: run layer_frame_fallbacks)
  next
    case False
    from assms(2) obtain rows F where wf: "array_of (heap st) allData = Some rows"
      "array_of (heap st) filteredIndex = Some F"
      "list_all (below (length (heap st))) rows" "list_all (index_ok rows) F"
      by (rule wf_inputD)
    let ?st' = "rebuilt ?st2 rows ?k F"
    let ?fr = "layer_frame env (config st) ?f (Ref (length (heap (resolved st))))
                 (dataToFeature ?st2)"
    let ?ds = "derived_spec (heap ?st2) (dataToFeature ?st2) rows ?k F"
    have run: "formatLayerData env st allData filteredIndex oldLayerData opt = (Inr ?fr, ?st')"
      by (rule formatLayerData_rebuilds[OF assms(1) wf False])
    have ds: "dataset_of (heap ?st') (data ?fr) = Some ?ds"
      using dataset_of_rebuilt[of ?st2 rows ?k F] by (simp add: layer_frame_def h2)
    have cs: "\<forall>r\<in>set ?ds. truthy (centroid r)"
      using derived_spec_points(1) by blast
    have "lookup (heap ?st') fa = Some (Fn ?k)"
      using rebuilt_fields(2)[of fa ?st2 rows ?k F] lookup_less[OF fa(2)] fa(2) by (simp add: h2)
    then have acc: "?k < 0 \<longrightarrow> (\<forall>row. row \<noteq> Undefined \<and> row \<noteq> Null \<longrightarrow>
                     call (heap ?st') (getS2Id ?fr) row = Inr Undefined)"
      using reads by (simp add: layer_frame_sel)
    have dsx: "\<exists>ds. dataset_of (heap ?st') (data ?fr) = Some ds \<and> (\<forall>r\<in>set ds. truthy (centroid r))"
      using ds cs by blast
    show ?thesis
      using acc dsx by (intro exI[of _ ?fr] exI[of _ ?st'])
        (simp add: run layer_frame_fallbacks)
  qed
qed

text \<open>
  The column unbound (field index -1), no channel field, no centroid for row 1: the
  call returns.
\<close>

theorem missing_inputs_raise_nothing_witness:
  "cache_ok ex_unbound \<and> wf_input (heap ex_unbound) (Ref 2) (Ref 3) \<and>
   fieldIdx (s2_id (columns (config ex_unbound))) < 0 \<and>
   colorField (config ex_unbound) = Null \<and>
   get_centroid ex_cache (Num 1) = Undefined \<and>
   (\<exists>fr st'.
      formatLayerData ex_env ex_unbound (Ref 2) (Ref 3) None None = (Inr fr, st') \<and>
      (\<not> truthy (sizeField (config ex_unbound)) \<longrightarrow> getElevation fr = Constant (Num 0)) \<and>
      (\<not> truthy (colorField (config ex_unbound)) \<longrightarrow>
         getColor fr = Constant (color (config ex_unbound))) \<and>
      (\<not> truthy (coverageField (config ex_unbound)) \<longrightarrow> getCoverage fr = Constant (Num 1)) \<and>
      (\<not> can_reuse None None (current_accessor ex_unbound) \<longrightarrow>
         (\<exists>ds. dataset_of (heap st') (data fr) = Some ds \<and> (\<forall>r\<in>set ds. truthy (centroid r)))) \<and>
      (fieldIdx (s2_id (columns (config ex_unbound))) < 0 \<longrightarrow>
         (\<forall>row. row \<noteq> Undefined \<and> row \<noteq> Null \<longrightarrow>
                call (heap st') (getS2Id fr) row = Inr Undefined)))"
proof -
  have k: "fieldIdx (s2_id (columns (config ex_unbound))) < 0"
    by (simp add: ex_unbound_def)
  have c: "colorField (config ex_unbound) = Null"
    by (simp add: ex_unbound_def ex_config_def)
  have g: "get_centroid ex_cache (Num 1) = Undefined"
    by (simp add: get_centroid_def ex_cache_def)
  note t = missing_inputs_raise_nothing[OF ex_unbound_ok, of ex_env None None]
  from ex_unbound_ok k c g t show ?thesis by (intro conjI)
qed

text \<open>
  Claim C8. With a previous frame whose \<open>data\<close> is truthy, a truthy \<open>sameData\<close> and
  the accessor unchanged, the call returns the previous dataset and reads no
  filtered index: any two values of \<open>filteredIndex\<close> give the same result.
\<close>

theorem reuse_ignores_filteredIndex:
  assumes "truthy (data old)" and "truthy (opt_sameData opt)"
    and "getS2Id old = current_accessor st"
  shows "(\<exists>fr. formatLayerData env st allData filteredIndex' (Some old) opt = (Inr fr, resolved st) \<and>
              data fr = data old) \<and>
         formatLayerData env st allData filteredIndex' (Some old) opt =
         formatLayerData env st allData filteredIndex (Some old) opt"
proof -
  have "can_reuse (Some old) opt (current_accessor st)"
    using assms by (simp add: can_reuse_def)
  then show ?thesis by (simp add: formatLayerData_reuses layer_frame_def)
qed

text \<open>After the first call of the scenario, the empty filter and \<open>[0, 1]\<close> give the same frame.\<close>

theorem reuse_ignores_filteredIndex_witness:
  "truthy (data (ex_frame (Ref 8))) \<and>
   truthy (opt_sameData (Some \<lparr>sameData = Bool True\<rparr>)) \<and>
   getS2Id (ex_frame (Ref 8)) = current_accessor (ex_after [Arr [Ref 9], Point ex_point]) \<and>
   formatLayerData ex_env (ex_after [Arr [Ref 9], Point ex_point]) (Ref 2) (Ref 6)
     (Some (ex_frame (Ref 8))) (Some \<lparr>sameData = Bool True\<rparr>) =
   formatLayerData ex_env (ex_after [Arr [Ref 9], Point ex_point]) (Ref 2) (Ref 3)
     (Some (ex_frame (Ref 8))) (Some \<lparr>sameData = Bool True\<rparr>)"
proof -
  have a: "truthy (data (ex_frame (Ref 8)))" by (simp add: ex_frame_def)
  have b: "truthy (opt_sameData (Some \<lparr>sameData = Bool True\<rparr>))"
    by (simp add: opt_sameData_def)
  have c: "getS2Id (ex_frame (Ref 8)) = current_accessor (ex_after [Arr [Ref 9], Point ex_point])"
    by (simp add: ex_defs current_accessor_def this_getS2Id_def S2IdResolver_def)
  from a b c reuse_ignores_filteredIndex[OF a b c, THEN conjunct2] show ?thesis
    by (intro conjI)
qed




text \<open>
  Claim C10. Every record of a rebuilt dataset has a centroid that is neither
  \<open>undefined\<close> nor \<open>null\<close>, holds under \<open>data\<close> the very value \<open>allData[F[i]]\<close> of
  the filtered index at its position \<open>i\<close> (a reference to the row, not a copy),
  and under \<open>id\<close> what the returned accessor reads from that row. The call
  leaves \<open>allData\<close>, \<open>filteredIndex\<close> and every object allocated before it as they
  were.
\<close>

theorem rebuilt_records_reference_rows:
  assumes "cache_ok st"
    and "array_of (heap st) allData = Some rows"
    and "array_of (heap st) filteredIndex = Some F"
    and "list_all (below (length (heap st))) rows"
    and "list_all (index_ok rows) F"
    and "\<not> can_reuse oldLayerData opt (current_accessor st)"
  shows "\<exists>fr st' ds.
           formatLayerData env st allData filteredIndex oldLayerData opt = (Inr fr, st') \<and>
           dataset_of (heap st') (data fr) = Some ds \<and>
           (\<forall>r\<in>set ds.
              centroid r \<noteq> Undefined \<and> centroid r \<noteq> Null \<and> index r < length F \<and>
              point.data r = row_at rows (F ! index r) \<and>
              call (heap st') (getS2Id fr) (point.data r) = Inr (id' r)) \<and>
           array_of (heap st') allData = Some rows \<and>
           array_of (heap st') filteredIndex = Some F \<and>
           (\<forall>a<length (heap st). lookup (heap st') a = lookup (heap st) a)"
proof -
  let ?st2 = "prepared env st allData oldLayerData"
  let ?k = "fieldIdx (s2_id (columns (config st)))"
  let ?st' = "rebuilt ?st2 rows ?k F"
  let ?fr = "layer_frame env (config st) (current_accessor st) (Ref (length (heap (resolved st))))
            (dataToFeature ?st2)"
  let ?ds = "derived_spec (heap ?st2) (dataToFeature ?st2) rows ?k F"
  have run: "formatLayerData env st allData filteredIndex oldLayerData opt = (Inr ?fr, ?st')"
    by (rule formatLayerData_rebuilds[OF assms])
  have h2: "heap ?st2 = heap (resolved st)" by (rule prepared_fields)
  have ds: "dataset_of (heap ?st') (data ?fr) = Some ?ds"
    using dataset_of_rebuilt[of ?st2 rows ?k F] by (simp add: layer_frame_def h2)
  from resolved_ok(2)[OF assms(1)] obtain fa where
    fa: "current_accessor st = Ref fa" "lookup (heap ?st2) fa = Some (Fn ?k)"
    unfolding h2 by blast
  have le: "length (heap st) \<le> length (heap ?st2)"
    unfolding h2 by (rule resolved_fields)
  have agree2: "lookup (heap ?st') a = lookup (heap ?st2) a" if "a < length (heap ?st2)" for a
    using that by (rule rebuilt_fields)
  have agree: "lookup (heap ?st') a = lookup (heap st) a" if "a < length (heap st)" for a
    using that agree2[of a] le resolved_fields(6)[of a st] by (simp add: h2)
  have fa': "lookup (heap ?st') fa = Some (Fn ?k)"
    using agree2[OF lookup_less[OF fa(2)]] fa(2) by simp
  have pt: "centroid r \<noteq> Undefined \<and> centroid r \<noteq> Null \<and> index r < length F \<and>
              point.data r = row_at rows (F ! index r) \<and>
              call (heap ?st') (getS2Id ?fr) (point.data r) = Inr (id' r)"
    if r: "r \<in> set ?ds" for r
  proof -
    note p = derived_spec_points[OF r]
    have ok: "index_ok rows (F ! index r)" using assms(5) p(2) by (simp add: list_all_length)
    from ok obtain j where "row_at rows (F ! index r) \<noteq> Undefined"
      "row_at rows (F ! index r) \<noteq> Null" by (rule index_ok_row)
    then have nn: "point.data r \<noteq> Undefined" "point.data r \<noteq> Null"
      by (simp_all add: p(3))
    have bl: "below (length (heap ?st2)) (point.data r)"
      unfolding p(3) using list_all_below_mono[OF assms(4) le] assms(5) p(2) by (rule row_at_below)
    have "call (heap ?st') (Ref fa) (point.data r) = Inr (field_at (heap ?st') ?k (point.data r))"
      using fa' nn by (rule call_row)
    also have "field_at (heap ?st') ?k (point.data r) = field_at (heap ?st2) ?k (point.data r)"
      using bl agree2 by (rule field_at_agree)
    finally have "call (heap ?st') (getS2Id ?fr) (point.data r) = Inr (id' r)"
      by (simp add: layer_frame_def fa(1) p(4))
    moreover have "centroid r \<noteq> Undefined \<and> centroid r \<noteq> Null"
      using p(1) by (cases "centroid r") simp_all
    ultimately show ?thesis using p(2,3) by simp
  qed
  have a1: "array_of (heap ?st') allData = Some rows"
    using assms(2) agree by (rule array_of_agree)
  have a2: "array_of (heap ?st') filteredIndex = Some F"
    using assms(3) agree by (rule array_of_agree)
  have ball: "\<forall>r\<in>set ?ds.
              centroid r \<noteq> Undefined \<and> centroid r \<noteq> Null \<and> index r < length F \<and>
              point.data r = row_at rows (F ! index r) \<and>
              call (heap ?st') (getS2Id ?fr) (point.data r) = Inr (id' r)"
    using pt by blast
  have all: "\<forall>a<length (heap st). lookup (heap ?st') a = lookup (heap st) a"
    using agree by blast
  show ?thesis
    by (intro exI conjI) (rule run ds ball a1 a2 all)+
qed

text \<open>The scenario: the one record refers to the row at address 0.\<close>

theorem rebuilt_records_reference_rows_witness:
  "cache_ok ex_state \<and>
   array_of (heap ex_state) (Ref 2) = Some [Ref 0, Ref 1] \<and>
   array_of (heap ex_state) (Ref 3) = Some [Num 0, Num 1] \<and>
   list_all (below (length (heap ex_state))) [Ref 0, Ref 1] \<and>
   list_all (index_ok [Ref 0, Ref 1]) [Num 0, Num 1] \<and>
   \<not> can_reuse None None (current_accessor ex_state) \<and>
   (\<exists>fr st' ds.
      formatLayerData ex_env ex_state (Ref 2) (Ref 3) None None = (Inr fr, st') \<and>
      dataset_of (heap st') (data fr) = Some ds \<and>
      (\<forall>r\<in>set ds.
         centroid r \<noteq> Undefined \<and> centroid r \<noteq> Null \<and> index r < length [Num 0, Num 1] \<and>
         point.data r = row_at [Ref 0, Ref 1] ([Num 0, Num 1] ! index r) \<and>
         call (heap st') (getS2Id fr) (point.data r) = Inr (id' r)) \<and>
      array_of (heap st') (Ref 2) = Some [Ref 0, Ref 1] \<and>
      array_of (heap st') (Ref 3) = Some [Num 0, Num 1] \<and>
      (\<forall>a<length (heap ex_state). lookup (heap st') a = lookup (heap ex_state) a))"
proof -
  have 6: "\<not> can_reuse None None (current_accessor ex_state)"
    by (simp add: can_reuse_def)
  note t = rebuilt_records_reference_rows[OF ex_cache_ok ex_arrays 6, of ex_env]
  from ex_cache_ok ex_arrays 6 t show ?thesis by (intro conjI)
qed

end
